theory Spec2Isabelle
  imports Main "HOL-Library.Word"
begin

section \<open>Entropy acquisition on Windows (crypto/rand/rand\_win.c)\<close>

text \<open>
  A shallow embedding of \<^verbatim>\<open>rand_pool_acquire_entropy\<close>,
  \<^verbatim>\<open>rand_pool_add_nonce_data\<close> and \<^verbatim>\<open>rand_pool_add_additional_data\<close>.
  The functions of the random pool (\<^verbatim>\<open>rand_pool_bytes_needed\<close>,
  \<^verbatim>\<open>rand_pool_add_begin\<close>, ...) are declared in headers and defined in another
  file of the library; the embedding takes them as parameters, so every theorem about
  the functions of rand\_win.c holds for any pool implementation. The answers of the
  operating system are parameters as well.
\<close>

subsection \<open>Build configuration and machine values\<close>

datatype arch = Win32 | Win64

fun size_bits :: "arch \<Rightarrow> nat" where
  "size_bits Win32 = 32"
| "size_bits Win64 = 64"

text \<open>The preprocessor symbols that select the parts of the function.\<close>

record config =
  target :: arch
  OPENSSL_RAND_SEED_RDTSC :: bool
  OPENSSL_RAND_SEED_RDCPU :: bool
  USE_BCRYPTGENRANDOM :: bool

text \<open>
  Pointers, handles and \<^verbatim>\<open>size_t\<close> values are natural numbers; arithmetic on
  \<^verbatim>\<open>size_t\<close> wraps at the width of the target, and a \<^verbatim>\<open>size_t\<close> passed for a
  \<^verbatim>\<open>ULONG\<close> or \<^verbatim>\<open>DWORD\<close> parameter is cut to 32 bits.
\<close>

abbreviation (input) NULL :: nat where
  "NULL \<equiv> 0"

definition PFN_BCryptGenRandom_NOTSET :: "config \<Rightarrow> nat" where
  "PFN_BCryptGenRandom_NOTSET cfg = 2 ^ size_bits (target cfg) - 1"

definition STATUS_SUCCESS :: int where
  "STATUS_SUCCESS = 0"

definition size_mul :: "config \<Rightarrow> nat \<Rightarrow> nat \<Rightarrow> nat" where
  "size_mul cfg a b = (a * b) mod 2 ^ size_bits (target cfg)"

definition ULONG_of :: "nat \<Rightarrow> nat" where
  "ULONG_of n = n mod 2 ^ 32"

subsection \<open>The collaborators\<close>

datatype provider = PROV_RSA_FULL | PROV_INTEL_SEC

datatype source = Tsc | Cpu | BCrypt | CryptoAPI provider

text \<open>
  The functions of the library that rand\_win.c calls and that are defined elsewhere.
  \<^verbatim>\<open>rand_pool_add_begin\<close> returns the pool and the buffer (\<open>None\<close> for a null
  pointer); \<^verbatim>\<open>rand_pool_add\<close> and the two hardware sources return the pool and
  their result.
\<close>

record 'p rand_lib =
  rand_pool_bytes_needed :: "'p \<Rightarrow> nat \<Rightarrow> nat"
  rand_pool_add_begin :: "'p \<Rightarrow> nat \<Rightarrow> 'p \<times> nat option"
  rand_pool_add_end :: "'p \<Rightarrow> nat \<Rightarrow> nat \<Rightarrow> 'p"
  rand_pool_entropy_available :: "'p \<Rightarrow> nat"
  rand_pool_add :: "'p \<Rightarrow> 8 word list \<Rightarrow> nat \<Rightarrow> nat \<Rightarrow> 'p \<times> int"
  rand_acquire_entropy_from_tsc :: "'p \<Rightarrow> 'p \<times> nat"
  rand_acquire_entropy_from_cpu :: "'p \<Rightarrow> 'p \<times> nat"

text \<open>
  What the operating system answers during one call of
  \<^verbatim>\<open>rand_pool_acquire_entropy\<close>: the module handle of BCRYPT.dll, the address
  found in a module, the status of a call through a function pointer (pointer, buffer,
  length), the result and handle of \<^verbatim>\<open>CryptAcquireContextW\<close>, and the result of
  \<^verbatim>\<open>CryptGenRandom\<close> (handle, length, buffer).
\<close>

record os_rng =
  LoadLibraryExA :: nat
  GetProcAddress :: "nat \<Rightarrow> nat"
  invoke_pfnBCryptGenRandom :: "nat \<Rightarrow> nat \<Rightarrow> nat \<Rightarrow> int"
  CryptAcquireContextW :: "provider \<Rightarrow> int \<times> nat"
  CryptGenRandom :: "provider \<Rightarrow> nat \<Rightarrow> nat \<Rightarrow> nat \<Rightarrow> int"

text \<open>
  The calls a run makes, with their arguments and results, in the order made. The two
  read-only probes of the pool (\<^verbatim>\<open>rand_pool_bytes_needed\<close>,
  \<^verbatim>\<open>rand_pool_entropy_available\<close>) are not recorded.
\<close>

datatype call =
  Call_from_tsc nat
| Call_from_cpu nat
| Call_LoadLibraryExA nat
| Call_GetProcAddress nat nat
| Call_FreeLibrary nat
| Call_pfnBCryptGenRandom nat nat nat int
| Call_CryptAcquireContextW provider int nat
| Call_CryptGenRandom nat nat nat int
| Call_CryptReleaseContext nat
| Call_add_begin nat "nat option"
| Call_add_end nat nat

text \<open>
  The state a call works on: the caller's pool, the function-local static
  \<^verbatim>\<open>s_pfnBCryptGenRandom\<close>, and the calls made so far, each with the source in
  whose code it stands.
\<close>

record 'p state =
  pool :: 'p
  s_pfnBCryptGenRandom :: nat
  calls :: "(source \<times> call) list"

definition note_call :: "source \<Rightarrow> call \<Rightarrow> 'p state \<Rightarrow> 'p state" where
  "note_call src c st = st\<lparr>calls := calls st @ [(src, c)]\<rparr>"

text \<open>
  \<^verbatim>\<open>InterlockedCompareExchangePointer(dest, exchange, comparand)\<close>: the new value
  of the destination and the value it held before.
\<close>

definition InterlockedCompareExchangePointer :: "nat \<Rightarrow> nat \<Rightarrow> nat \<Rightarrow> nat \<times> nat" where
  "InterlockedCompareExchangePointer dest exchange comparand =
     (if dest = comparand then exchange else dest, dest)"

subsection \<open>rand\_pool\_acquire\_entropy\<close>

text \<open>Lines 67 and 73: the two hardware sources.\<close>

definition from_tsc :: "'p rand_lib \<Rightarrow> 'p state \<Rightarrow> 'p state \<times> nat" where
  "from_tsc lib st =
     (let (p, entropy_available) = rand_acquire_entropy_from_tsc lib (pool st)
      in (note_call Tsc (Call_from_tsc entropy_available) (st\<lparr>pool := p\<rparr>),
          entropy_available))"

definition from_cpu :: "'p rand_lib \<Rightarrow> 'p state \<Rightarrow> 'p state \<times> nat" where
  "from_cpu lib st =
     (let (p, entropy_available) = rand_acquire_entropy_from_cpu lib (pool st)
      in (note_call Cpu (Call_from_cpu entropy_available) (st\<lparr>pool := p\<rparr>),
          entropy_available))"

text \<open>
  Lines 79 to 95: the binding of \<^verbatim>\<open>BCryptGenRandom\<close>. The result is the state and
  the local \<^verbatim>\<open>pfnBCryptGenRandom\<close>.
\<close>

definition bcrypt_binding :: "config \<Rightarrow> os_rng \<Rightarrow> 'p state \<Rightarrow> 'p state \<times> nat" where
  "bcrypt_binding cfg os st =
     (let (s, pfnBCryptGenRandom) =
            InterlockedCompareExchangePointer (s_pfnBCryptGenRandom st) 0 0;
          st = st\<lparr>s_pfnBCryptGenRandom := s\<rparr>
      in if pfnBCryptGenRandom = PFN_BCryptGenRandom_NOTSET cfg then
           let hmBCrypt = LoadLibraryExA os;
               st = note_call BCrypt (Call_LoadLibraryExA hmBCrypt) st;
               (st, pfnBCryptGenRandom) =
                 (if hmBCrypt \<noteq> NULL
                  then (note_call BCrypt
                          (Call_GetProcAddress hmBCrypt (GetProcAddress os hmBCrypt)) st,
                        GetProcAddress os hmBCrypt)
                  else (st, NULL));
               (s, pfnBCryptGenRandom2) =
                 InterlockedCompareExchangePointer (s_pfnBCryptGenRandom st)
                   pfnBCryptGenRandom (PFN_BCryptGenRandom_NOTSET cfg);
               st = st\<lparr>s_pfnBCryptGenRandom := s\<rparr>
           in if pfnBCryptGenRandom2 \<noteq> PFN_BCryptGenRandom_NOTSET cfg then
                ((if hmBCrypt \<noteq> NULL
                  then note_call BCrypt (Call_FreeLibrary hmBCrypt) st else st),
                 pfnBCryptGenRandom2)
              else (st, pfnBCryptGenRandom)
         else (st, pfnBCryptGenRandom))"

text \<open>
  Lines 97 to 107: the request to \<^verbatim>\<open>BCryptGenRandom\<close> through the bound pointer.
  The last argument is the local \<^verbatim>\<open>entropy_available\<close> on entry; the result is
  the state and its value after the block.
\<close>

definition bcrypt_fill ::
  "config \<Rightarrow> 'p rand_lib \<Rightarrow> os_rng \<Rightarrow> nat \<Rightarrow> 'p state \<Rightarrow> nat \<Rightarrow> 'p state \<times> nat" where
  "bcrypt_fill cfg lib os pfnBCryptGenRandom st entropy_available =
     (let bytes_needed = rand_pool_bytes_needed lib (pool st) 1;
          (p, buffer) = rand_pool_add_begin lib (pool st) bytes_needed;
          st = note_call BCrypt (Call_add_begin bytes_needed buffer) (st\<lparr>pool := p\<rparr>)
      in case buffer of
           None \<Rightarrow> (st, entropy_available)
         | Some buf \<Rightarrow>
            let status = invoke_pfnBCryptGenRandom os pfnBCryptGenRandom buf
                           (ULONG_of bytes_needed);
                st = note_call BCrypt
                       (Call_pfnBCryptGenRandom pfnBCryptGenRandom buf
                          (ULONG_of bytes_needed) status) st;
                bytes = (if status = STATUS_SUCCESS then bytes_needed else 0);
                st = note_call BCrypt (Call_add_end bytes (size_mul cfg 8 bytes))
                       (st\<lparr>pool := rand_pool_add_end lib (pool st) bytes
                                      (size_mul cfg 8 bytes)\<rparr>)
            in (st, rand_pool_entropy_available lib (pool st)))"

text \<open>
  Lines 112 to 127 (\<open>PROV_RSA_FULL\<close>) and 131 to 146 (\<open>PROV_INTEL_SEC\<close>): the two
  blocks differ in the provider asked for only.
\<close>

definition cryptoapi_fill ::
  "config \<Rightarrow> 'p rand_lib \<Rightarrow> os_rng \<Rightarrow> provider \<Rightarrow> 'p state \<Rightarrow> nat \<Rightarrow> 'p state \<times> nat" where
  "cryptoapi_fill cfg lib os prov st entropy_available =
     (let bytes_needed = rand_pool_bytes_needed lib (pool st) 1;
          (p, buffer) = rand_pool_add_begin lib (pool st) bytes_needed;
          st = note_call (CryptoAPI prov) (Call_add_begin bytes_needed buffer)
                 (st\<lparr>pool := p\<rparr>)
      in case buffer of
           None \<Rightarrow> (st, entropy_available)
         | Some buf \<Rightarrow>
            let (acquired, hProvider) = CryptAcquireContextW os prov;
                st = note_call (CryptoAPI prov)
                       (Call_CryptAcquireContextW prov acquired hProvider) st;
                (st, bytes) =
                  (if acquired \<noteq> 0 then
                     let filled = CryptGenRandom os prov hProvider
                                    (ULONG_of bytes_needed) buf;
                         st = note_call (CryptoAPI prov)
                                (Call_CryptGenRandom hProvider (ULONG_of bytes_needed)
                                   buf filled) st;
                         bytes = (if filled \<noteq> 0 then bytes_needed else 0);
                         st = note_call (CryptoAPI prov)
                                (Call_CryptReleaseContext hProvider) st
                     in (st, bytes)
                   else (st, 0));
                st = note_call (CryptoAPI prov) (Call_add_end bytes (size_mul cfg 8 bytes))
                       (st\<lparr>pool := rand_pool_add_end lib (pool st) bytes
                                      (size_mul cfg 8 bytes)\<rparr>)
            in (st, rand_pool_entropy_available lib (pool st)))"

text \<open>
  A stage of the function either returns its value or falls through to the next
  statement with the local \<^verbatim>\<open>entropy_available\<close>.
\<close>

datatype 'p flow = Return "'p state" nat | Next_stmt "'p state" nat

definition return_if_positive :: "'p state \<times> nat \<Rightarrow> 'p flow" where
  "return_if_positive r =
     (case r of (st, entropy_available) \<Rightarrow>
        if entropy_available > 0 then Return st entropy_available
        else Next_stmt st entropy_available)"

text \<open>Lines 66 to 70, 72 to 76, 78 to 111, and each of the two CryptoAPI stages.\<close>

definition tsc_stage :: "config \<Rightarrow> 'p rand_lib \<Rightarrow> 'p state \<Rightarrow> nat \<Rightarrow> 'p flow" where
  "tsc_stage cfg lib st entropy_available =
     (if OPENSSL_RAND_SEED_RDTSC cfg then return_if_positive (from_tsc lib st)
      else Next_stmt st entropy_available)"

definition cpu_stage :: "config \<Rightarrow> 'p rand_lib \<Rightarrow> 'p state \<Rightarrow> nat \<Rightarrow> 'p flow" where
  "cpu_stage cfg lib st entropy_available =
     (if OPENSSL_RAND_SEED_RDCPU cfg then return_if_positive (from_cpu lib st)
      else Next_stmt st entropy_available)"

definition bcrypt_stage ::
  "config \<Rightarrow> 'p rand_lib \<Rightarrow> os_rng \<Rightarrow> 'p state \<Rightarrow> nat \<Rightarrow> 'p flow" where
  "bcrypt_stage cfg lib os st entropy_available =
     (if USE_BCRYPTGENRANDOM cfg then
        (case bcrypt_binding cfg os st of (st, pfnBCryptGenRandom) \<Rightarrow>
           if pfnBCryptGenRandom \<noteq> NULL
           then return_if_positive
                  (bcrypt_fill cfg lib os pfnBCryptGenRandom st entropy_available)
           else Next_stmt st entropy_available)
      else Next_stmt st entropy_available)"

definition cryptoapi_stage ::
  "config \<Rightarrow> 'p rand_lib \<Rightarrow> os_rng \<Rightarrow> provider \<Rightarrow> 'p state \<Rightarrow> nat \<Rightarrow> 'p flow" where
  "cryptoapi_stage cfg lib os prov st entropy_available =
     return_if_positive (cryptoapi_fill cfg lib os prov st entropy_available)"

text \<open>
  The function, lines 48 to 151: \<^verbatim>\<open>entropy_available\<close> starts at 0, the stages run
  in the order of the text, and the last statement returns what the pool reports.
\<close>

definition rand_pool_acquire_entropy ::
  "config \<Rightarrow> 'p rand_lib \<Rightarrow> os_rng \<Rightarrow> 'p state \<Rightarrow> 'p state \<times> nat" where
  "rand_pool_acquire_entropy cfg lib os st =
     (case tsc_stage cfg lib st 0 of
        Return st r \<Rightarrow> (st, r)
      | Next_stmt st entropy_available \<Rightarrow>
     (case cpu_stage cfg lib st entropy_available of
        Return st r \<Rightarrow> (st, r)
      | Next_stmt st entropy_available \<Rightarrow>
     (case bcrypt_stage cfg lib os st entropy_available of
        Return st r \<Rightarrow> (st, r)
      | Next_stmt st entropy_available \<Rightarrow>
     (case cryptoapi_stage cfg lib os PROV_RSA_FULL st entropy_available of
        Return st r \<Rightarrow> (st, r)
      | Next_stmt st entropy_available \<Rightarrow>
     (case cryptoapi_stage cfg lib os PROV_INTEL_SEC st entropy_available of
        Return st r \<Rightarrow> (st, r)
      | Next_stmt st entropy_available \<Rightarrow>
          (st, rand_pool_entropy_available lib (pool st)))))))"

subsection \<open>The orchestrator as the specification words it\<close>

text \<open>
  One attempt of a source: what it leaves in the state and the entropy available after
  it. The sources in their fixed priority order, those of the build only. The
  orchestrator tries them in turn, stops at the first attempt after which entropy is
  available, and otherwise returns what the pool reports.
\<close>

fun attempt :: "config \<Rightarrow> 'p rand_lib \<Rightarrow> os_rng \<Rightarrow> source \<Rightarrow> 'p state \<Rightarrow> 'p state \<times> nat" where
  "attempt cfg lib os Tsc st = from_tsc lib st"
| "attempt cfg lib os Cpu st = from_cpu lib st"
| "attempt cfg lib os BCrypt st =
     (case bcrypt_binding cfg os st of (st', pfn) \<Rightarrow>
        if pfn \<noteq> NULL then bcrypt_fill cfg lib os pfn st' 0 else (st', 0))"
| "attempt cfg lib os (CryptoAPI prov) st = cryptoapi_fill cfg lib os prov st 0"

definition priority_order :: "config \<Rightarrow> source list" where
  "priority_order cfg =
     (if OPENSSL_RAND_SEED_RDTSC cfg then [Tsc] else []) @
     (if OPENSSL_RAND_SEED_RDCPU cfg then [Cpu] else []) @
     (if USE_BCRYPTGENRANDOM cfg then [BCrypt] else []) @
     [CryptoAPI PROV_RSA_FULL, CryptoAPI PROV_INTEL_SEC]"

fun try_sources ::
  "config \<Rightarrow> 'p rand_lib \<Rightarrow> os_rng \<Rightarrow> source list \<Rightarrow> 'p state \<Rightarrow> 'p state \<times> nat" where
  "try_sources cfg lib os [] st = (st, rand_pool_entropy_available lib (pool st))"
| "try_sources cfg lib os (src # later) st =
     (case attempt cfg lib os src st of (st', bits) \<Rightarrow>
        if bits > 0 then (st', bits) else try_sources cfg lib os later st')"

text \<open>One stage of that iteration, as a statement of the function.\<close>

definition stage_of :: "config \<Rightarrow> 'p rand_lib \<Rightarrow> os_rng \<Rightarrow> source \<Rightarrow> 'p state \<Rightarrow> 'p flow" where
  "stage_of cfg lib os src st =
     (case attempt cfg lib os src st of (s, e) \<Rightarrow>
        if e > 0 then Return s e else Next_stmt s 0)"

subsection \<open>Reading the record of calls\<close>

text \<open>
  The state in which a call starts: the caller's pool, the value the static holds, and
  no call made yet.
\<close>

definition entry :: "'p \<Rightarrow> nat \<Rightarrow> 'p state" where
  "entry p s = \<lparr>pool = p, s_pfnBCryptGenRandom = s, calls = []\<rparr>"

text \<open>The calls that stand in the code of one source, in the order made.\<close>

definition calls_by :: "source \<Rightarrow> 'p state \<Rightarrow> call list" where
  "calls_by src st = map snd (filter (\<lambda>sc. fst sc = src) (calls st))"

text \<open>The calls one attempt of a source adds to the record.\<close>

definition attempt_calls ::
  "config \<Rightarrow> 'p rand_lib \<Rightarrow> os_rng \<Rightarrow> source \<Rightarrow> 'p state \<Rightarrow> call list" where
  "attempt_calls cfg lib os src st =
     map snd (drop (length (calls st)) (calls (fst (attempt cfg lib os src st))))"

text \<open>The three sources that ask the operating system for bytes.\<close>

definition os_backed :: "source list" where
  "os_backed = [BCrypt, CryptoAPI PROV_RSA_FULL, CryptoAPI PROV_INTEL_SEC]"


text \<open>
  The calls of lines 84 to 92 that look the binding up, and the calls of the operating
  system between a reservation and its commit.
\<close>

fun is_lookup :: "call \<Rightarrow> bool" where
  "is_lookup (Call_LoadLibraryExA hm) = True"
| "is_lookup (Call_GetProcAddress hm pfn) = True"
| "is_lookup (Call_FreeLibrary hm) = True"
| "is_lookup c = False"

fun is_os_fill :: "call \<Rightarrow> bool" where
  "is_os_fill (Call_pfnBCryptGenRandom pfn buf len status) = True"
| "is_os_fill (Call_CryptAcquireContextW prov acquired h) = True"
| "is_os_fill (Call_CryptGenRandom h len buf filled) = True"
| "is_os_fill (Call_CryptReleaseContext h) = True"
| "is_os_fill c = False"

text \<open>
  The calls of one source, read from the left: lookups of the binding only, then either
  nothing, or a reservation that yields no buffer and ends the attempt, or a reservation
  that yields a buffer, calls to the operating system, and one commit, whose entropy
  argument is the \<^verbatim>\<open>size_t\<close> product of 8 and its byte count, as the last call.
\<close>

fun fill_then_commit :: "config \<Rightarrow> call list \<Rightarrow> bool" where
  "fill_then_commit cfg [] = False"
| "fill_then_commit cfg (Call_add_end bytes entropy # cs) =
     (entropy = size_mul cfg 8 bytes \<and> cs = [])"
| "fill_then_commit cfg (c # cs) = (is_os_fill c \<and> fill_then_commit cfg cs)"

fun reserve_then_commit :: "config \<Rightarrow> call list \<Rightarrow> bool" where
  "reserve_then_commit cfg [] = True"
| "reserve_then_commit cfg (Call_add_begin n None # cs) = (cs = [])"
| "reserve_then_commit cfg (Call_add_begin n (Some buf) # cs) = fill_then_commit cfg cs"
| "reserve_then_commit cfg (c # cs) = (is_lookup c \<and> reserve_then_commit cfg cs)"

text \<open>
  Every commit carries either all the bytes of the reservation before it or none: all
  when the last request for random bytes since that reservation reported success
  (\<^verbatim>\<open>STATUS_SUCCESS\<close> from \<^verbatim>\<open>BCryptGenRandom\<close>, a nonzero result from
  \<^verbatim>\<open>CryptGenRandom\<close>), none otherwise; and every such request asks for the size of
  the reservation, cut to 32 bits. The arguments are the size of the last reservation
  and whether such a success has been seen since.
\<close>

fun all_or_nothing :: "nat \<Rightarrow> bool \<Rightarrow> call list \<Rightarrow> bool" where
  "all_or_nothing n ok [] = True"
| "all_or_nothing n ok (Call_add_begin n' buffer # cs) = all_or_nothing n' False cs"
| "all_or_nothing n ok (Call_pfnBCryptGenRandom pfn buf len status # cs) =
     (len = ULONG_of n \<and> all_or_nothing n (status = STATUS_SUCCESS) cs)"
| "all_or_nothing n ok (Call_CryptGenRandom h len buf filled # cs) =
     (len = ULONG_of n \<and> all_or_nothing n (filled \<noteq> 0) cs)"
| "all_or_nothing n ok (Call_add_end bytes entropy # cs) =
     (bytes = (if ok then n else 0) \<and> all_or_nothing n ok cs)"
| "all_or_nothing n ok (c # cs) = all_or_nothing n ok cs"

text \<open>
  The provider handle: the argument is the handle held. A handle is acquired only while
  none is held, random bytes are asked of the handle held, a release gives back the
  handle held, and no handle is held at a commit or at the end.
\<close>

fun handle_released :: "nat option \<Rightarrow> call list \<Rightarrow> bool" where
  "handle_released held [] = (held = None)"
| "handle_released held (Call_CryptAcquireContextW prov acquired h # cs) =
     (held = None \<and> handle_released (if acquired \<noteq> 0 then Some h else None) cs)"
| "handle_released held (Call_CryptGenRandom h len buf filled # cs) =
     (held = Some h \<and> handle_released held cs)"
| "handle_released held (Call_CryptReleaseContext h # cs) =
     (held = Some h \<and> handle_released None cs)"
| "handle_released held (Call_add_end bytes entropy # cs) =
     (held = None \<and> handle_released held cs)"
| "handle_released held (c # cs) = handle_released held cs"

text \<open>
  A commit after a failed acquisition of the handle or a failed request for random
  bytes carries 0 bytes. The argument says whether the last such call failed.
\<close>

fun nothing_on_failure :: "bool \<Rightarrow> call list \<Rightarrow> bool" where
  "nothing_on_failure failed [] = True"
| "nothing_on_failure failed (Call_CryptAcquireContextW prov acquired h # cs) =
     nothing_on_failure (acquired = 0) cs"
| "nothing_on_failure failed (Call_CryptGenRandom h len buf filled # cs) =
     nothing_on_failure (filled = 0) cs"
| "nothing_on_failure failed (Call_add_end bytes entropy # cs) =
     ((if failed then bytes = 0 else True) \<and> nothing_on_failure failed cs)"
| "nothing_on_failure failed (c # cs) = nothing_on_failure failed cs"

text \<open>No call of a list is a lookup of the binding.\<close>

definition no_lookup :: "(source \<times> call) list \<Rightarrow> bool" where
  "no_lookup cs = list_all (\<lambda>sc. \<not> is_lookup (snd sc)) cs"

text \<open>What a lookup of the binding finds: the address in the library, or null.\<close>

definition lookup_outcome :: "os_rng \<Rightarrow> nat" where
  "lookup_outcome os =
     (if LoadLibraryExA os \<noteq> NULL then GetProcAddress os (LoadLibraryExA os) else NULL)"

text \<open>Either no lookup was made, or the static holds what the lookup found.\<close>

definition lookup_recorded :: "os_rng \<Rightarrow> 'p state \<Rightarrow> bool" where
  "lookup_recorded os st =
     (no_lookup (calls st) \<or> s_pfnBCryptGenRandom st = lookup_outcome os)"


subsection \<open>A process that calls the function again and again\<close>

text \<open>
  Each call has its own pool and its own answers of the operating system; the static
  carries over. The result is the last value of the static and all calls made.
\<close>

fun successive_calls ::
  "config \<Rightarrow> 'p rand_lib \<Rightarrow> (os_rng \<times> 'p) list \<Rightarrow> nat \<Rightarrow> nat \<times> (source \<times> call) list" where
  "successive_calls cfg lib [] s = (s, [])"
| "successive_calls cfg lib ((os, p) # later) s =
     (let st = fst (rand_pool_acquire_entropy cfg lib os (entry p s));
          (s', cs) = successive_calls cfg lib later (s_pfnBCryptGenRandom st)
      in (s', calls st @ cs))"

subsection \<open>The binding under concurrent first use\<close>

text \<open>
  Lines 79 to 95 once more, one thread among several: the places a thread can be, with
  its locals \<^verbatim>\<open>hmBCrypt\<close>, \<^verbatim>\<open>pfnBCryptGenRandom\<close> and
  \<^verbatim>\<open>pfnBCryptGenRandom2\<close>. Each interlocked operation and each call of the
  operating system is one indivisible step.
\<close>

datatype thread =
  At_read
| At_load
| At_lookup nat
| At_exchange nat nat
| At_free nat nat
| Bound nat

text \<open>
  What the threads share: the static, and the number of references to BCRYPT.dll that
  \<^verbatim>\<open>LoadLibraryExA\<close> has handed out and \<^verbatim>\<open>FreeLibrary\<close> has not taken back.
\<close>

record process =
  static :: nat
  library_refs :: nat
  threads :: "thread list"

text \<open>
  One step of a thread on the shared values. The first argument after the configuration
  is what the operating system answers should the step be a call of
  \<^verbatim>\<open>LoadLibraryExA\<close> (the module handle) or of \<^verbatim>\<open>GetProcAddress\<close> (the
  address).
\<close>

fun thread_step :: "config \<Rightarrow> nat \<times> nat \<Rightarrow> nat \<times> nat \<times> thread \<Rightarrow> nat \<times> nat \<times> thread" where
  "thread_step cfg answer (s, refs, At_read) =
     (let (s', pfnBCryptGenRandom) = InterlockedCompareExchangePointer s 0 0
      in (s', refs,
          if pfnBCryptGenRandom = PFN_BCryptGenRandom_NOTSET cfg then At_load
          else Bound pfnBCryptGenRandom))"
| "thread_step cfg answer (s, refs, At_load) =
     (let hmBCrypt = fst answer
      in (s, (if hmBCrypt \<noteq> NULL then refs + 1 else refs), At_lookup hmBCrypt))"
| "thread_step cfg answer (s, refs, At_lookup hmBCrypt) =
     (s, refs, At_exchange hmBCrypt (if hmBCrypt \<noteq> NULL then snd answer else NULL))"
| "thread_step cfg answer (s, refs, At_exchange hmBCrypt pfnBCryptGenRandom) =
     (let (s', pfnBCryptGenRandom2) =
            InterlockedCompareExchangePointer s pfnBCryptGenRandom
              (PFN_BCryptGenRandom_NOTSET cfg)
      in (s', refs,
          if pfnBCryptGenRandom2 \<noteq> PFN_BCryptGenRandom_NOTSET cfg
          then At_free hmBCrypt pfnBCryptGenRandom2
          else Bound pfnBCryptGenRandom))"
| "thread_step cfg answer (s, refs, At_free hmBCrypt pfnBCryptGenRandom2) =
     (s, (if hmBCrypt \<noteq> NULL then refs - 1 else refs), Bound pfnBCryptGenRandom2)"
| "thread_step cfg answer (s, refs, Bound pfnBCryptGenRandom) =
     (s, refs, Bound pfnBCryptGenRandom)"

text \<open>
  A schedule names, step by step, the thread that moves and the answers of the operating
  system for that step; the process runs a schedule from the left.
\<close>

definition step :: "config \<Rightarrow> nat \<times> nat \<times> nat \<Rightarrow> process \<Rightarrow> process" where
  "step cfg move P =
     (case move of (i, answer) \<Rightarrow>
        if i < length (threads P) then
          (case thread_step cfg answer (static P, library_refs P, threads P ! i) of
             (s, refs, t) \<Rightarrow>
               \<lparr>static = s, library_refs = refs, threads = (threads P)[i := t]\<rparr>)
        else P)"

fun run_schedule :: "config \<Rightarrow> (nat \<times> nat \<times> nat) list \<Rightarrow> process \<Rightarrow> process" where
  "run_schedule cfg [] P = P"
| "run_schedule cfg (move # later) P = run_schedule cfg later (step cfg move P)"

definition first_use :: "config \<Rightarrow> nat \<Rightarrow> process" where
  "first_use cfg n =
     \<lparr>static = PFN_BCryptGenRandom_NOTSET cfg, library_refs = 0,
      threads = replicate n At_read\<rparr>"

text \<open>A thread that holds a module handle it has yet to keep or to free.\<close>

fun holds_library :: "thread \<Rightarrow> bool" where
  "holds_library (At_lookup hm) = (hm \<noteq> NULL)"
| "holds_library (At_exchange hm pfn) = (hm \<noteq> NULL)"
| "holds_library (At_free hm pfn2) = (hm \<noteq> NULL)"
| "holds_library t = False"

fun is_bound :: "thread \<Rightarrow> bool" where
  "is_bound (Bound pfn) = True"
| "is_bound t = False"

text \<open>The operating system never hands out the sentinel as the address of a function.\<close>

definition proper_answers :: "config \<Rightarrow> (nat \<times> nat \<times> nat) list \<Rightarrow> bool" where
  "proper_answers cfg sched =
     list_all (\<lambda>move. snd (snd move) \<noteq> PFN_BCryptGenRandom_NOTSET cfg) sched"

text \<open>
  What the locals of a thread say about the static \<open>s\<close>: an address about to be
  exchanged is not the sentinel; a thread that lost the exchange, and a thread past the
  binding, holds the value of the static, which is not the sentinel.
\<close>

fun settled :: "config \<Rightarrow> nat \<Rightarrow> thread \<Rightarrow> bool" where
  "settled cfg s (At_exchange hm pfn) = (pfn \<noteq> PFN_BCryptGenRandom_NOTSET cfg)"
| "settled cfg s (At_free hm pfn2) = (pfn2 = s \<and> s \<noteq> PFN_BCryptGenRandom_NOTSET cfg)"
| "settled cfg s (Bound pfn) = (pfn = s \<and> s \<noteq> PFN_BCryptGenRandom_NOTSET cfg)"
| "settled cfg s t = True"

definition holders :: "thread list \<Rightarrow> nat" where
  "holders ts = length (filter holds_library ts)"

text \<open>
  The invariant of the binding: every reference to the library is held by a thread
  still inside the binding, but for at most one, and for none while the static is unset.
\<close>

definition binding_inv :: "config \<Rightarrow> process \<Rightarrow> bool" where
  "binding_inv cfg P =
     (holders (threads P) \<le> library_refs P \<and>
      library_refs P \<le> holders (threads P) + 1 \<and>
      (if static P = PFN_BCryptGenRandom_NOTSET cfg
       then library_refs P = holders (threads P) else True) \<and>
      list_all (settled cfg (static P)) (threads P))"

subsection \<open>The nonce records\<close>

text \<open>
  What the operating system answers to the nonce functions: the process and thread
  identifiers, the two halves of the \<^verbatim>\<open>FILETIME\<close> written by
  \<^verbatim>\<open>GetSystemTimeAsFileTime\<close>, and the \<^verbatim>\<open>QuadPart\<close> written by
  \<^verbatim>\<open>QueryPerformanceCounter\<close>.
\<close>

record os_ident =
  GetCurrentProcessId :: "32 word"
  GetCurrentThreadId :: "32 word"
  GetSystemTimeAsFileTime :: "32 word \<times> 32 word"
  QueryPerformanceCounter :: "64 word"

text \<open>
  The local \<^verbatim>\<open>data\<close> is a run of bytes on the stack. Before the function writes to
  it, it holds whatever the stack held: the function reading offsets to bytes.
  A \<^verbatim>\<open>DWORD\<close> takes 4 bytes, a \<^verbatim>\<open>FILETIME\<close> two \<^verbatim>\<open>DWORD\<close>s, a
  \<^verbatim>\<open>LARGE_INTEGER\<close> 8 bytes aligned to 8, low byte first; so both records take 16
  bytes, and the second has 4 bytes of padding after \<^verbatim>\<open>tid\<close>.
\<close>

definition stack_object :: "(nat \<Rightarrow> 8 word) \<Rightarrow> nat \<Rightarrow> 8 word list" where
  "stack_object stack n = map stack [0..<n]"

definition memset :: "8 word list \<Rightarrow> 8 word \<Rightarrow> nat \<Rightarrow> 8 word list" where
  "memset obj c n = replicate (min n (length obj)) c @ drop n obj"

definition store_at :: "nat \<Rightarrow> 8 word list \<Rightarrow> 8 word list \<Rightarrow> 8 word list" where
  "store_at off bs obj = take off obj @ bs @ drop (off + length bs) obj"

definition DWORD_bytes :: "32 word \<Rightarrow> 8 word list" where
  "DWORD_bytes w = map (\<lambda>i. ucast (drop_bit (8 * i) w)) [0..<4]"

definition LARGE_INTEGER_bytes :: "64 word \<Rightarrow> 8 word list" where
  "LARGE_INTEGER_bytes w = map (\<lambda>i. ucast (drop_bit (8 * i) w)) [0..<8]"

definition FILETIME_bytes :: "32 word \<times> 32 word \<Rightarrow> 8 word list" where
  "FILETIME_bytes ft = DWORD_bytes (fst ft) @ DWORD_bytes (snd ft)"

text \<open>Lines 156 to 172: the record of \<^verbatim>\<open>rand_pool_add_nonce_data\<close> as line 174 passes it on.\<close>

definition nonce_data :: "os_ident \<Rightarrow> (nat \<Rightarrow> 8 word) \<Rightarrow> 8 word list" where
  "nonce_data os stack =
     (let data = stack_object stack 16;
          data = memset data 0 16;
          data = store_at 0 (DWORD_bytes (GetCurrentProcessId os)) data;
          data = store_at 4 (DWORD_bytes (GetCurrentThreadId os)) data;
          data = store_at 8 (FILETIME_bytes (GetSystemTimeAsFileTime os)) data
      in data)"

definition rand_pool_add_nonce_data ::
  "'p rand_lib \<Rightarrow> os_ident \<Rightarrow> (nat \<Rightarrow> 8 word) \<Rightarrow> 'p \<Rightarrow> 'p \<times> int" where
  "rand_pool_add_nonce_data lib os stack p =
     rand_pool_add lib p (nonce_data os stack) 16 0"

text \<open>Lines 179 to 193: the record of \<^verbatim>\<open>rand_pool_add_additional_data\<close> as line 194 passes it on.\<close>

definition additional_data :: "os_ident \<Rightarrow> (nat \<Rightarrow> 8 word) \<Rightarrow> 8 word list" where
  "additional_data os stack =
     (let data = stack_object stack 16;
          data = memset data 0 16;
          data = store_at 0 (DWORD_bytes (GetCurrentThreadId os)) data;
          data = store_at 8 (LARGE_INTEGER_bytes (QueryPerformanceCounter os)) data
      in data)"

definition rand_pool_add_additional_data ::
  "'p rand_lib \<Rightarrow> os_ident \<Rightarrow> (nat \<Rightarrow> 8 word) \<Rightarrow> 'p \<Rightarrow> 'p \<times> int" where
  "rand_pool_add_additional_data lib os stack p =
     rand_pool_add lib p (additional_data os stack) 16 0"

subsection \<open>The pool as the specification describes it\<close>

text \<open>
  Modelled from the spec: the EntropyPool of sections 3 and 4.1. The pool functions
  (\<^verbatim>\<open>rand_pool_add_begin\<close>, \<^verbatim>\<open>rand_pool_add_end\<close>,
  \<^verbatim>\<open>rand_pool_entropy_available\<close>, \<^verbatim>\<open>rand_pool_add\<close>) are not in
  rand\_win.c. The record holds the attributes of section 3 without the bytes themselves;
  \<open>reserved\<close> is the part of the capacity that reservations have handed out
  (capacity reserved and not committed is wasted).
\<close>

record EntropyPool =
  bytes_written :: nat
  entropy_bits_credited :: nat
  min_bytes_needed :: nat
  max_entropy_bits :: nat
  capacity :: nat
  reserved :: nat

text \<open>
  Modelled from the spec: \<open>reserve(n)\<close> of section 4.1, missing as
  \<^verbatim>\<open>rand_pool_add_begin\<close>. A region of exactly \<open>n\<close> bytes if the capacity
  allows, else none; no buffer with no capacity left; a refused reservation leaves the
  pool as it was. The region is named by its offset.
\<close>

definition reserve :: "EntropyPool \<Rightarrow> nat \<Rightarrow> EntropyPool \<times> nat option" where
  "reserve p n =
     (let room = capacity p - reserved p
      in if room = 0 \<or> room < n then (p, None)
         else (p\<lparr>reserved := reserved p + n\<rparr>, Some (reserved p)))"

text \<open>
  Modelled from the spec: \<open>commit(bytes_actually_valid, entropy_bits_claimed)\<close> of
  section 4.1, missing as \<^verbatim>\<open>rand_pool_add_end\<close>. The bytes count as written, and
  the claim is credited clipped to 8 times these bytes and to the room left under
  \<open>max_entropy_bits\<close>.
\<close>

definition commit :: "EntropyPool \<Rightarrow> nat \<Rightarrow> nat \<Rightarrow> EntropyPool" where
  "commit p bytes_actually_valid entropy_bits_claimed =
     p\<lparr>bytes_written := bytes_written p + bytes_actually_valid,
       entropy_bits_credited := entropy_bits_credited p +
         min (min entropy_bits_claimed (8 * bytes_actually_valid))
             (max_entropy_bits p - entropy_bits_credited p)\<rparr>"

text \<open>
  Modelled from the spec: \<open>available_entropy()\<close> of section 4.1, missing as
  \<^verbatim>\<open>rand_pool_entropy_available\<close>: the entropy credited so far.
\<close>

definition available_entropy :: "EntropyPool \<Rightarrow> nat" where
  "available_entropy p = entropy_bits_credited p"

text \<open>
  Modelled from the spec: the path of section 4.4 that adds bytes with a claimed weight,
  missing as \<^verbatim>\<open>rand_pool_add\<close>: a reservation for the bytes and, if it yields a
  region, their commit with that weight. This is its effect on the pool; the
  specification does not give its result.
\<close>

definition add_bytes :: "EntropyPool \<Rightarrow> nat \<Rightarrow> nat \<Rightarrow> EntropyPool" where
  "add_bytes p n entropy =
     (case reserve p n of
        (p', None) \<Rightarrow> p'
      | (p', Some region) \<Rightarrow> commit p' n entropy)"

text \<open>
  Modelled from the spec: the invariant of section 3 and the cap of section 4.1, which
  the missing pool functions are to keep: no more entropy credited than 8 times the
  bytes written, nor than \<open>max_entropy_bits\<close>.
\<close>

definition within_bounds :: "EntropyPool \<Rightarrow> bool" where
  "within_bounds p =
     (entropy_bits_credited p \<le> 8 * bytes_written p \<and>
      entropy_bits_credited p \<le> max_entropy_bits p)"

text \<open>A sequence of operations on a pool.\<close>

datatype pool_op = Reserve nat | Commit nat nat

fun apply_ops :: "EntropyPool \<Rightarrow> pool_op list \<Rightarrow> EntropyPool" where
  "apply_ops p [] = p"
| "apply_ops p (Reserve n # later) = apply_ops (fst (reserve p n)) later"
| "apply_ops p (Commit bytes entropy # later) = apply_ops (commit p bytes entropy) later"

text \<open>
  Modelled from the spec: a library whose missing pool functions
  (\<^verbatim>\<open>rand_pool_add_begin\<close>, \<^verbatim>\<open>rand_pool_add_end\<close>,
  \<^verbatim>\<open>rand_pool_entropy_available\<close>, and \<^verbatim>\<open>rand_pool_add\<close> in its
  effect on the pool) are those above. What the specification leaves open (the bytes to
  ask for, the hardware sources, the result of \<^verbatim>\<open>rand_pool_add\<close>) stays as the
  given library has it.
\<close>

definition with_spec_pool :: "EntropyPool rand_lib \<Rightarrow> EntropyPool rand_lib" where
  "with_spec_pool lib =
     lib\<lparr>rand_pool_add_begin := reserve,
         rand_pool_add_end := commit,
         rand_pool_entropy_available := available_entropy,
         rand_pool_add := (\<lambda>p bs n entropy.
            (add_bytes p n entropy, snd (rand_pool_add lib p bs n entropy)))\<rparr>"

text \<open>The hardware sources of a library, which are not in rand\_win.c either, keep the bounds.\<close>

definition hardware_keeps_bounds :: "EntropyPool rand_lib \<Rightarrow> bool" where
  "hardware_keeps_bounds lib =
     ((\<forall>q. within_bounds q \<longrightarrow> within_bounds (fst (rand_acquire_entropy_from_tsc lib q))) \<and>
      (\<forall>q. within_bounds q \<longrightarrow> within_bounds (fst (rand_acquire_entropy_from_cpu lib q))))"

subsection \<open>Values for the closed examples\<close>

text \<open>
  A library whose pool is the one above: it asks for the bytes still missing from the
  target, its hardware sources add nothing and return what the pool reports, and adding
  bytes fails exactly when the reservation does.
\<close>

definition example_lib :: "EntropyPool rand_lib" where
  "example_lib = with_spec_pool
     \<lparr>rand_pool_bytes_needed = (\<lambda>p factor. factor * (min_bytes_needed p - bytes_written p)),
      rand_pool_add_begin = reserve,
      rand_pool_add_end = commit,
      rand_pool_entropy_available = available_entropy,
      rand_pool_add = (\<lambda>p bs n entropy. (p, if snd (reserve p n) = None then 0 else 1)),
      rand_acquire_entropy_from_tsc = (\<lambda>p. (p, available_entropy p)),
      rand_acquire_entropy_from_cpu = (\<lambda>p. (p, available_entropy p))\<rparr>"

definition empty_pool :: EntropyPool where
  "empty_pool = \<lparr>bytes_written = 0, entropy_bits_credited = 0, min_bytes_needed = 32,
                 max_entropy_bits = 256, capacity = 48, reserved = 0\<rparr>"

definition full_pool :: EntropyPool where
  "full_pool = \<lparr>bytes_written = 48, entropy_bits_credited = 256, min_bytes_needed = 32,
                max_entropy_bits = 256, capacity = 48, reserved = 48\<rparr>"

definition spent_pool :: EntropyPool where
  "spent_pool = \<lparr>bytes_written = 0, entropy_bits_credited = 0, min_bytes_needed = 32,
                 max_entropy_bits = 256, capacity = 48, reserved = 48\<rparr>"

text \<open>A pool handed over with 100 bits already credited and room left.\<close>

definition seeded_pool :: EntropyPool where
  "seeded_pool = \<lparr>bytes_written = 16, entropy_bits_credited = 100, min_bytes_needed = 32,
                  max_entropy_bits = 256, capacity = 48, reserved = 16\<rparr>"

text \<open>A 64-bit build with every source, and one without the two hardware sources.\<close>

definition no_hardware :: config where
  "no_hardware = \<lparr>target = Win64, OPENSSL_RAND_SEED_RDTSC = False,
                  OPENSSL_RAND_SEED_RDCPU = False, USE_BCRYPTGENRANDOM = True\<rparr>"

definition all_flags :: config where
  "all_flags = \<lparr>target = Win64, OPENSSL_RAND_SEED_RDTSC = True,
                OPENSSL_RAND_SEED_RDCPU = True, USE_BCRYPTGENRANDOM = True\<rparr>"

text \<open>
  A machine on which BCRYPT.dll loads and \<^verbatim>\<open>BCryptGenRandom\<close> succeeds, and one
  without the library, whose general provider fills the buffer and whose Intel provider
  does not exist.
\<close>

definition modern_os :: os_rng where
  "modern_os = \<lparr>LoadLibraryExA = 4096, GetProcAddress = (\<lambda>hm. 8192),
                invoke_pfnBCryptGenRandom = (\<lambda>pfn buf len. 0),
                CryptAcquireContextW = (\<lambda>prov. (1, 77)),
                CryptGenRandom = (\<lambda>prov h len buf. 1)\<rparr>"

definition legacy_os :: os_rng where
  "legacy_os = \<lparr>LoadLibraryExA = 0, GetProcAddress = (\<lambda>hm. 0),
                invoke_pfnBCryptGenRandom = (\<lambda>pfn buf len. -1),
                CryptAcquireContextW =
                  (\<lambda>prov. if prov = PROV_RSA_FULL then (1, 77) else (0, 0)),
                CryptGenRandom = (\<lambda>prov h len buf. 1)\<rparr>"

text \<open>
  A machine whose calls for random bytes fail, and one with neither the library nor a
  provider.
\<close>

definition refusing_os :: os_rng where
  "refusing_os = \<lparr>LoadLibraryExA = 4096, GetProcAddress = (\<lambda>hm. 8192),
                  invoke_pfnBCryptGenRandom = (\<lambda>pfn buf len. 259),
                  CryptAcquireContextW = (\<lambda>prov. (1, 77)),
                  CryptGenRandom = (\<lambda>prov h len buf. 0)\<rparr>"

definition bare_os :: os_rng where
  "bare_os = \<lparr>LoadLibraryExA = 0, GetProcAddress = (\<lambda>hm. 0),
              invoke_pfnBCryptGenRandom = (\<lambda>pfn buf len. -1),
              CryptAcquireContextW = (\<lambda>prov. (0, 0)),
              CryptGenRandom = (\<lambda>prov h len buf. 0)\<rparr>"

text \<open>
  Two threads at the first use: both find the static unset, both load the library and
  find the address, the second wins the exchange, and the first frees its handle.
\<close>

definition race_of_two :: "(nat \<times> nat \<times> nat) list" where
  "race_of_two =
     [(0, 0, 0), (1, 0, 0), (0, 4096, 0), (1, 4096, 0), (0, 0, 8192), (1, 0, 8192),
      (1, 0, 0), (0, 0, 0), (0, 0, 0)]"

definition stale_stack :: "nat \<Rightarrow> 8 word" where
  "stale_stack i = 255"

definition some_ident :: os_ident where
  "some_ident = \<lparr>GetCurrentProcessId = 1234, GetCurrentThreadId = 5678,
                 GetSystemTimeAsFileTime = (1, 2), QueryPerformanceCounter = 99\<rparr>"

section \<open>Theorems\<close>

subsection \<open>The function is the iteration over the sources\<close>

lemma return_if_positive_zero:
  "return_if_positive r =
     (case r of (st, e) \<Rightarrow> if e > 0 then Return st e else Next_stmt st 0)"
  by (simp add: return_if_positive_def split: prod.splits)

lemma tsc_stage_0:
  "tsc_stage cfg lib st 0 =
     (if OPENSSL_RAND_SEED_RDTSC cfg then stage_of cfg lib os Tsc st else Next_stmt st 0)"
  by (simp add: tsc_stage_def return_if_positive_zero stage_of_def)

lemma cpu_stage_0:
  "cpu_stage cfg lib st 0 =
     (if OPENSSL_RAND_SEED_RDCPU cfg then stage_of cfg lib os Cpu st else Next_stmt st 0)"
  by (simp add: cpu_stage_def return_if_positive_zero stage_of_def)

lemma bcrypt_stage_0:
  "bcrypt_stage cfg lib os st 0 =
     (if USE_BCRYPTGENRANDOM cfg then stage_of cfg lib os BCrypt st else Next_stmt st 0)"
  by (simp add: bcrypt_stage_def return_if_positive_zero stage_of_def split: prod.splits)

lemma cryptoapi_stage_0:
  "cryptoapi_stage cfg lib os prov st 0 = stage_of cfg lib os (CryptoAPI prov) st"
  by (simp add: cryptoapi_stage_def return_if_positive_zero stage_of_def)

lemma stage_then:
  assumes "\<And>s. k s 0 = try_sources cfg lib os later s"
  shows "(case stage_of cfg lib os src st of Return s r \<Rightarrow> (s, r) | Next_stmt s e \<Rightarrow> k s e) =
         try_sources cfg lib os (src # later) st"
  using assms by (simp add: stage_of_def split: prod.splits)

text \<open>
  The local \<^verbatim>\<open>entropy_available\<close> is 0 whenever a stage starts, so a stage that
  does not return hands on 0: the stages are the attempts, one after the other.
\<close>

lemma acquire_is_try_sources:
  "rand_pool_acquire_entropy cfg lib os st = try_sources cfg lib os (priority_order cfg) st"
proof -
  let ?intel = "\<lambda>s e. case cryptoapi_stage cfg lib os PROV_INTEL_SEC s e of
      Return s r \<Rightarrow> (s, r) | Next_stmt s e \<Rightarrow> (s, rand_pool_entropy_available lib (pool s))"
  let ?rsa = "\<lambda>s e. case cryptoapi_stage cfg lib os PROV_RSA_FULL s e of
      Return s r \<Rightarrow> (s, r) | Next_stmt s e \<Rightarrow> ?intel s e"
  let ?bcrypt = "\<lambda>s e. case bcrypt_stage cfg lib os s e of
      Return s r \<Rightarrow> (s, r) | Next_stmt s e \<Rightarrow> ?rsa s e"
  let ?cpu = "\<lambda>s e. case cpu_stage cfg lib s e of
      Return s r \<Rightarrow> (s, r) | Next_stmt s e \<Rightarrow> ?bcrypt s e"
  let ?os_sources = "[CryptoAPI PROV_RSA_FULL, CryptoAPI PROV_INTEL_SEC]"
  let ?from_bcrypt = "(if USE_BCRYPTGENRANDOM cfg then [BCrypt] else []) @ ?os_sources"
  let ?from_cpu = "(if OPENSSL_RAND_SEED_RDCPU cfg then [Cpu] else []) @ ?from_bcrypt"
  have intel: "?intel s 0 = try_sources cfg lib os [CryptoAPI PROV_INTEL_SEC] s" for s
    unfolding cryptoapi_stage_0 by (rule stage_then) simp
  have rsa: "?rsa s 0 = try_sources cfg lib os ?os_sources s" for s
    unfolding cryptoapi_stage_0 [of _ _ _ PROV_RSA_FULL] by (rule stage_then) (rule intel)
  have bcrypt: "?bcrypt s 0 = try_sources cfg lib os ?from_bcrypt s" for s
  proof (cases "USE_BCRYPTGENRANDOM cfg")
    case True
    have "?bcrypt s 0 = try_sources cfg lib os (BCrypt # ?os_sources) s"
      unfolding bcrypt_stage_0 if_P [OF True] by (rule stage_then) (rule rsa)
    with True show ?thesis by simp
  next
    case False
    then show ?thesis using rsa [of s] by (simp add: bcrypt_stage_0)
  qed
  have cpu: "?cpu s 0 = try_sources cfg lib os ?from_cpu s" for s
  proof (cases "OPENSSL_RAND_SEED_RDCPU cfg")
    case True
    have "?cpu s 0 = try_sources cfg lib os (Cpu # ?from_bcrypt) s"
      unfolding cpu_stage_0 [where os = os] if_P [OF True] by (rule stage_then) (rule bcrypt)
    with True show ?thesis by simp
  next
    case False
    then show ?thesis using bcrypt [of s] by (simp add: cpu_stage_0 [where os = os])
  qed
  show ?thesis
  proof (cases "OPENSSL_RAND_SEED_RDTSC cfg")
    case True
    have "rand_pool_acquire_entropy cfg lib os st = try_sources cfg lib os (Tsc # ?from_cpu) st"
      unfolding rand_pool_acquire_entropy_def tsc_stage_0 [where os = os] if_P [OF True]
      by (rule stage_then) (rule cpu)
    with True show ?thesis by (simp add: priority_order_def)
  next
    case False
    then show ?thesis using cpu [of st]
      by (simp add: rand_pool_acquire_entropy_def priority_order_def tsc_stage_0 [where os = os])
  qed
qed

lemma note_call_simps [simp]:
  "calls (note_call src c st) = calls st @ [(src, c)]"
  "pool (note_call src c st) = pool st"
  "s_pfnBCryptGenRandom (note_call src c st) = s_pfnBCryptGenRandom st"
  by (simp_all add: note_call_def)

lemmas attempt_unfold =
  attempt_calls_def from_tsc_def from_cpu_def bcrypt_binding_def bcrypt_fill_def
  cryptoapi_fill_def InterlockedCompareExchangePointer_def Let_def

lemmas example_defs =
  example_lib_def with_spec_pool_def empty_pool_def full_pool_def spent_pool_def
  seeded_pool_def no_hardware_def all_flags_def
  modern_os_def legacy_os_def refusing_os_def bare_os_def entry_def reserve_def commit_def
  available_entropy_def add_bytes_def priority_order_def from_tsc_def from_cpu_def
  bcrypt_binding_def bcrypt_fill_def cryptoapi_fill_def InterlockedCompareExchangePointer_def
  PFN_BCryptGenRandom_NOTSET_def STATUS_SUCCESS_def size_mul_def ULONG_of_def note_call_def
  Let_def









subsection \<open>The calls of one source\<close>

lemma attempt_appends:
  "calls (fst (attempt cfg lib os src st)) =
     calls st @ map (Pair src) (attempt_calls cfg lib os src st)"
proof (cases src)
  case Tsc
  then show ?thesis by (simp add: attempt_unfold split: prod.splits)
next
  case Cpu
  then show ?thesis by (simp add: attempt_unfold split: prod.splits)
next
  case BCrypt
  then show ?thesis by (simp add: attempt_unfold split: prod.splits option.splits)
next
  case (CryptoAPI prov)
  then show ?thesis by (simp add: attempt_unfold split: prod.splits option.splits)
qed

lemma calls_by_attempt:
  "calls_by src (fst (attempt cfg lib os src' st)) =
     calls_by src st @ (if src' = src then attempt_calls cfg lib os src' st else [])"
  by (simp add: calls_by_def attempt_appends filter_map comp_def)

lemma calls_by_try_sources_other:
  "src \<notin> set srcs \<Longrightarrow>
     calls_by src (fst (try_sources cfg lib os srcs st)) = calls_by src st"
proof (induction srcs arbitrary: st)
  case Nil
  then show ?case by simp
next
  case (Cons a srcs)
  obtain st' bits where a: "attempt cfg lib os a st = (st', bits)"
    by (cases "attempt cfg lib os a st")
  have "a \<noteq> src" using Cons.prems by auto
  then have "calls_by src st' = calls_by src st"
    using calls_by_attempt [of src cfg lib os a st] a by simp
  with Cons a show ?case by simp
qed

lemma calls_by_try_sources:
  assumes "distinct srcs"
  shows "calls_by src (fst (try_sources cfg lib os srcs st)) = calls_by src st \<or>
         (\<exists>st'. calls_by src (fst (try_sources cfg lib os srcs st)) =
                  calls_by src st @ attempt_calls cfg lib os src st')"
  using assms
proof (induction srcs arbitrary: st)
  case Nil
  then show ?case by simp
next
  case (Cons a srcs)
  obtain st' bits where a: "attempt cfg lib os a st = (st', bits)"
    by (cases "attempt cfg lib os a st")
  show ?case
  proof (cases "a = src")
    case True
    then have "src \<notin> set srcs" using Cons.prems by simp
    then have "calls_by src (fst (try_sources cfg lib os srcs st')) = calls_by src st'"
      by (rule calls_by_try_sources_other)
    moreover have "calls_by src st' = calls_by src st @ attempt_calls cfg lib os src st"
      using calls_by_attempt [of src cfg lib os a st] a True by simp
    ultimately show ?thesis using a by auto
  next
    case False
    then have "calls_by src st' = calls_by src st"
      using calls_by_attempt [of src cfg lib os a st] a by simp
    moreover have "distinct srcs" using Cons.prems by simp
    ultimately show ?thesis using Cons.IH [of st'] a by auto
  qed
qed

lemma distinct_priority_order: "distinct (priority_order cfg)"
  by (simp add: priority_order_def)

lemma calls_by_entry: "calls_by src (entry p s) = []"
  by (simp add: calls_by_def entry_def)

text \<open>
  What holds of no calls at all and of the calls of any one attempt of a source holds of
  the calls that stand in the code of that source in a run of the function.
\<close>

lemma source_calls_cases:
  assumes "Q []" and "\<And>st'. Q (attempt_calls cfg lib os src st')"
  shows "Q (calls_by src (fst (rand_pool_acquire_entropy cfg lib os (entry p s))))"
  using calls_by_try_sources [OF distinct_priority_order, of src cfg lib os cfg "entry p s"]
    assms
  by (auto simp: acquire_is_try_sources calls_by_entry)

lemma bcrypt_reserve_then_commit:
  "reserve_then_commit cfg (attempt_calls cfg lib os BCrypt st)"
  by (simp add: attempt_unfold split: prod.splits option.splits)

lemma cryptoapi_reserve_then_commit:
  "reserve_then_commit cfg (attempt_calls cfg lib os (CryptoAPI prov) st)"
  by (simp add: attempt_unfold split: prod.splits option.splits)

lemma bcrypt_all_or_nothing:
  "all_or_nothing n ok (attempt_calls cfg lib os BCrypt st)"
  by (simp add: attempt_unfold split: prod.splits option.splits)

lemma cryptoapi_all_or_nothing:
  "all_or_nothing n ok (attempt_calls cfg lib os (CryptoAPI prov) st)"
  by (simp add: attempt_unfold split: prod.splits option.splits)

lemma cryptoapi_handle_released:
  "handle_released None (attempt_calls cfg lib os (CryptoAPI prov) st)"
  by (simp add: attempt_unfold split: prod.splits option.splits)

lemma cryptoapi_nothing_on_failure:
  "nothing_on_failure failed (attempt_calls cfg lib os (CryptoAPI prov) st)"
  by (simp add: attempt_unfold split: prod.splits option.splits)

lemma size_mul_exact:
  "a * b < 2 ^ size_bits (target cfg) \<Longrightarrow> size_mul cfg a b = a * b"
  by (simp add: size_mul_def)

text \<open>What the readings of the record of calls refuse.\<close>

lemma reserve_then_commit_rejects:
  "\<not> reserve_then_commit cfg [Call_add_end 0 0]"
  "\<not> reserve_then_commit cfg [Call_add_begin n None, Call_add_end 0 0]"
  "\<not> reserve_then_commit cfg [Call_add_begin n None, Call_CryptAcquireContextW prov 1 h]"
  "\<not> reserve_then_commit cfg [Call_add_begin n (Some buf)]"
  "\<not> reserve_then_commit all_flags [Call_add_begin 32 (Some buf), Call_add_end 32 32]"
  by (simp_all add: size_mul_def all_flags_def)

lemma all_or_nothing_rejects:
  "\<not> all_or_nothing 0 False
        [Call_add_begin 32 (Some buf), Call_pfnBCryptGenRandom pfn buf 32 0,
         Call_add_end 16 128]"
  "\<not> all_or_nothing 0 False
        [Call_add_begin 32 (Some buf), Call_pfnBCryptGenRandom pfn buf 32 259,
         Call_add_end 32 256]"
  "\<not> all_or_nothing 0 False
        [Call_add_begin 32 (Some buf), Call_CryptAcquireContextW prov 0 h,
         Call_add_end 32 256]"
  "\<not> all_or_nothing 0 False
        [Call_add_begin 32 (Some buf), Call_pfnBCryptGenRandom pfn buf 16 0,
         Call_add_end 32 256]"
  by (simp_all add: STATUS_SUCCESS_def ULONG_of_def)

lemma handle_released_rejects:
  "\<not> handle_released None
        [Call_CryptAcquireContextW prov 1 h, Call_CryptGenRandom h len buf 0,
         Call_add_end 0 0]"
  "\<not> handle_released None [Call_CryptAcquireContextW prov 1 h]"
  "\<not> nothing_on_failure False
        [Call_CryptAcquireContextW prov 1 h, Call_CryptGenRandom h len buf 0,
         Call_CryptReleaseContext h, Call_add_end 32 256]"
  by simp_all

text \<open>
  C10. In a run of \<^verbatim>\<open>rand_pool_acquire_entropy\<close>, the calls in the code of each
  source that asks the operating system are: lookups of the binding only, then either
  nothing, or a reservation that yields no buffer and no call after it (no call of the
  operating system, no commit), or a reservation that yields a buffer followed by calls
  of the operating system and exactly one commit. So a commit is made exactly when the
  reservation before it yielded a buffer. The entropy argument of every commit is the
  \<^verbatim>\<open>size_t\<close> product of 8 and the byte count, which is 8 times the byte count
  whenever that fits a \<^verbatim>\<open>size_t\<close>.
\<close>

theorem commit_iff_buffer_reserved:
  "list_all
     (\<lambda>src. reserve_then_commit cfg
        (calls_by src (fst (rand_pool_acquire_entropy cfg lib os (entry p s)))))
     os_backed
   \<and> (8 * bytes < 2 ^ size_bits (target cfg) \<longrightarrow> size_mul cfg 8 bytes = 8 * bytes)"
proof -
  have "reserve_then_commit cfg
          (calls_by src (fst (rand_pool_acquire_entropy cfg lib os (entry p s))))"
    if "src \<in> set os_backed" for src
  proof (rule source_calls_cases)
    show "reserve_then_commit cfg []" by simp
    show "reserve_then_commit cfg (attempt_calls cfg lib os src st')" for st'
      using that bcrypt_reserve_then_commit cryptoapi_reserve_then_commit
      by (auto simp: os_backed_def)
  qed
  then show ?thesis by (simp add: list_all_iff size_mul_exact)
qed

theorem commit_iff_buffer_reserved_witness:
  "calls_by (CryptoAPI PROV_RSA_FULL)
     (fst (rand_pool_acquire_entropy all_flags example_lib legacy_os
             (entry empty_pool (PFN_BCryptGenRandom_NOTSET all_flags)))) =
     [Call_add_begin 32 (Some 0), Call_CryptAcquireContextW PROV_RSA_FULL 1 77,
      Call_CryptGenRandom 77 32 0 1, Call_CryptReleaseContext 77, Call_add_end 32 256]
   \<and> calls_by (CryptoAPI PROV_RSA_FULL)
     (fst (rand_pool_acquire_entropy all_flags example_lib legacy_os
             (entry spent_pool (PFN_BCryptGenRandom_NOTSET all_flags)))) =
     [Call_add_begin 32 None]
   \<and> list_all
     (\<lambda>src. reserve_then_commit all_flags
        (calls_by src (fst (rand_pool_acquire_entropy all_flags example_lib legacy_os
             (entry empty_pool (PFN_BCryptGenRandom_NOTSET all_flags))))))
     os_backed
   \<and> (8::nat) * 32 < 2 ^ size_bits (target all_flags)
   \<and> size_mul all_flags 8 32 = 256"
  using commit_iff_buffer_reserved [of all_flags example_lib legacy_os empty_pool
      "PFN_BCryptGenRandom_NOTSET all_flags" 32]
  by (simp add: acquire_is_try_sources calls_by_def example_defs)

text \<open>
  C3. In a run of \<^verbatim>\<open>rand_pool_acquire_entropy\<close>, every commit of each source that
  asks the operating system carries either exactly the bytes of the reservation before
  it, which are the \<^verbatim>\<open>bytes_needed\<close> asked for, or exactly 0: all of them when
  \<^verbatim>\<open>BCryptGenRandom\<close> returned \<^verbatim>\<open>STATUS_SUCCESS\<close> or
  \<^verbatim>\<open>CryptGenRandom\<close> a nonzero result, and 0 on any other outcome. The operating
  system is asked for the same count, as a 32-bit value.
\<close>

theorem committed_all_or_nothing:
  "list_all
     (\<lambda>src. all_or_nothing 0 False
        (calls_by src (fst (rand_pool_acquire_entropy cfg lib os (entry p s)))))
     os_backed
   \<and> (n < 2 ^ 32 \<longrightarrow> ULONG_of n = n)"
proof -
  have "all_or_nothing 0 False
          (calls_by src (fst (rand_pool_acquire_entropy cfg lib os (entry p s))))"
    if "src \<in> set os_backed" for src
  proof (rule source_calls_cases)
    show "all_or_nothing 0 False []" by simp
    show "all_or_nothing 0 False (attempt_calls cfg lib os src st')" for st'
      using that bcrypt_all_or_nothing cryptoapi_all_or_nothing
      by (auto simp: os_backed_def)
  qed
  then show ?thesis by (simp add: list_all_iff ULONG_of_def)
qed

theorem committed_all_or_nothing_witness:
  "calls_by BCrypt
     (fst (rand_pool_acquire_entropy all_flags example_lib modern_os
             (entry empty_pool (PFN_BCryptGenRandom_NOTSET all_flags)))) =
     [Call_LoadLibraryExA 4096, Call_GetProcAddress 4096 8192, Call_add_begin 32 (Some 0),
      Call_pfnBCryptGenRandom 8192 0 32 0, Call_add_end 32 256]
   \<and> calls_by BCrypt
     (fst (rand_pool_acquire_entropy all_flags example_lib refusing_os
             (entry empty_pool (PFN_BCryptGenRandom_NOTSET all_flags)))) =
     [Call_LoadLibraryExA 4096, Call_GetProcAddress 4096 8192, Call_add_begin 32 (Some 0),
      Call_pfnBCryptGenRandom 8192 0 32 259, Call_add_end 0 0]
   \<and> list_all
     (\<lambda>src. all_or_nothing 0 False
        (calls_by src (fst (rand_pool_acquire_entropy all_flags example_lib refusing_os
             (entry empty_pool (PFN_BCryptGenRandom_NOTSET all_flags))))))
     os_backed
   \<and> (32::nat) < 2 ^ 32 \<and> ULONG_of 32 = 32"
  using committed_all_or_nothing [of all_flags example_lib refusing_os empty_pool
      "PFN_BCryptGenRandom_NOTSET all_flags" 32]
  by (simp add: acquire_is_try_sources calls_by_def example_defs)

text \<open>
  C6. In a run of \<^verbatim>\<open>rand_pool_acquire_entropy\<close>, for both CryptoAPI sources: a
  provider handle that \<^verbatim>\<open>CryptAcquireContextW\<close> handed out is given back by
  \<^verbatim>\<open>CryptReleaseContext\<close> before the commit of the attempt, whether
  \<^verbatim>\<open>CryptGenRandom\<close> succeeded or not, and none is held at the end; and a commit
  after a failed acquisition or a failed request for random bytes carries 0 bytes.
\<close>

theorem provider_handle_released:
  "list_all
     (\<lambda>prov. handle_released None
                (calls_by (CryptoAPI prov)
                   (fst (rand_pool_acquire_entropy cfg lib os (entry p s))))
             \<and> nothing_on_failure False
                (calls_by (CryptoAPI prov)
                   (fst (rand_pool_acquire_entropy cfg lib os (entry p s)))))
     [PROV_RSA_FULL, PROV_INTEL_SEC]"
proof -
  have "handle_released None
          (calls_by (CryptoAPI prov) (fst (rand_pool_acquire_entropy cfg lib os (entry p s))))"
    for prov
    by (rule source_calls_cases) (simp_all add: cryptoapi_handle_released)
  moreover have "nothing_on_failure False
          (calls_by (CryptoAPI prov) (fst (rand_pool_acquire_entropy cfg lib os (entry p s))))"
    for prov
    by (rule source_calls_cases) (simp_all add: cryptoapi_nothing_on_failure)
  ultimately show ?thesis by simp
qed

theorem provider_handle_released_witness:
  "calls_by (CryptoAPI PROV_RSA_FULL)
     (fst (rand_pool_acquire_entropy all_flags example_lib refusing_os
             (entry empty_pool 0))) =
     [Call_add_begin 32 (Some 0), Call_CryptAcquireContextW PROV_RSA_FULL 1 77,
      Call_CryptGenRandom 77 32 0 0, Call_CryptReleaseContext 77, Call_add_end 0 0]
   \<and> calls_by (CryptoAPI PROV_INTEL_SEC)
     (fst (rand_pool_acquire_entropy all_flags example_lib bare_os
             (entry (empty_pool\<lparr>capacity := 96\<rparr>) 0))) =
     [Call_add_begin 32 (Some 32), Call_CryptAcquireContextW PROV_INTEL_SEC 0 0,
      Call_add_end 0 0]
   \<and> list_all
     (\<lambda>prov. handle_released None
                (calls_by (CryptoAPI prov)
                   (fst (rand_pool_acquire_entropy all_flags example_lib refusing_os
                           (entry empty_pool 0))))
             \<and> nothing_on_failure False
                (calls_by (CryptoAPI prov)
                   (fst (rand_pool_acquire_entropy all_flags example_lib refusing_os
                           (entry empty_pool 0)))))
     [PROV_RSA_FULL, PROV_INTEL_SEC]"
  using provider_handle_released [of all_flags example_lib refusing_os empty_pool 0]
  by (simp add: acquire_is_try_sources calls_by_def example_defs)

subsection \<open>The binding is resolved once\<close>

lemma no_lookup_simps [simp]:
  "no_lookup []"
  "no_lookup (xs @ ys) = (no_lookup xs \<and> no_lookup ys)"
  "no_lookup ((src, c) # xs) = (\<not> is_lookup c \<and> no_lookup xs)"
  by (simp_all add: no_lookup_def)

lemma NULL_is_not_NOTSET: "PFN_BCryptGenRandom_NOTSET cfg \<noteq> NULL"
  by (cases "target cfg") (simp_all add: PFN_BCryptGenRandom_NOTSET_def)

lemma attempt_keeps_binding:
  assumes "s_pfnBCryptGenRandom st \<noteq> PFN_BCryptGenRandom_NOTSET cfg"
  shows "s_pfnBCryptGenRandom (fst (attempt cfg lib os src st)) = s_pfnBCryptGenRandom st
         \<and> (no_lookup (calls st) \<longrightarrow> no_lookup (calls (fst (attempt cfg lib os src st))))"
proof (cases src)
  case Tsc
  then show ?thesis by (simp add: attempt_unfold split: prod.splits)
next
  case Cpu
  then show ?thesis by (simp add: attempt_unfold split: prod.splits)
next
  case BCrypt
  then show ?thesis using assms by (simp add: attempt_unfold split: prod.splits option.splits)
next
  case (CryptoAPI prov)
  then show ?thesis by (simp add: attempt_unfold split: prod.splits option.splits)
qed

lemma try_sources_keeps_binding:
  assumes "s_pfnBCryptGenRandom st \<noteq> PFN_BCryptGenRandom_NOTSET cfg"
    and "no_lookup (calls st)"
  shows "s_pfnBCryptGenRandom (fst (try_sources cfg lib os srcs st)) = s_pfnBCryptGenRandom st
         \<and> no_lookup (calls (fst (try_sources cfg lib os srcs st)))"
  using assms
proof (induction srcs arbitrary: st)
  case Nil
  then show ?case by simp
next
  case (Cons a srcs)
  obtain st' bits where a: "attempt cfg lib os a st = (st', bits)"
    by (cases "attempt cfg lib os a st")
  have st': "s_pfnBCryptGenRandom st' = s_pfnBCryptGenRandom st" "no_lookup (calls st')"
    using attempt_keeps_binding [OF Cons.prems(1), of lib os a] Cons.prems(2) a by simp_all
  show ?case using Cons.IH [of st'] st' Cons.prems(1) a by simp
qed

lemma acquire_keeps_binding:
  assumes "s \<noteq> PFN_BCryptGenRandom_NOTSET cfg"
  shows "s_pfnBCryptGenRandom (fst (rand_pool_acquire_entropy cfg lib os (entry p s))) = s
         \<and> no_lookup (calls (fst (rand_pool_acquire_entropy cfg lib os (entry p s))))"
  using try_sources_keeps_binding [of "entry p s" cfg lib os "priority_order cfg"] assms
  by (simp add: acquire_is_try_sources entry_def)

lemma successive_calls_keep_binding:
  assumes "s \<noteq> PFN_BCryptGenRandom_NOTSET cfg"
  shows "fst (successive_calls cfg lib runs s) = s
         \<and> no_lookup (snd (successive_calls cfg lib runs s))"
proof (induction runs)
  case Nil
  then show ?case by simp
next
  case (Cons r runs)
  obtain os p where r: "r = (os, p)" by (cases r)
  show ?case
    using Cons acquire_keeps_binding [OF assms, of lib os p]
    by (auto simp add: r Let_def split: prod.splits)
qed

lemma attempt_records_lookup:
  assumes "lookup_recorded os st"
  shows "lookup_recorded os (fst (attempt cfg lib os src st))"
proof (cases src)
  case Tsc
  then show ?thesis using assms
    by (auto simp add: lookup_recorded_def attempt_unfold split: prod.splits)
next
  case Cpu
  then show ?thesis using assms
    by (auto simp add: lookup_recorded_def attempt_unfold split: prod.splits)
next
  case BCrypt
  then show ?thesis using assms
    by (auto simp add: lookup_recorded_def lookup_outcome_def attempt_unfold
        split: prod.splits option.splits if_splits)
next
  case (CryptoAPI prov)
  then show ?thesis using assms
    by (auto simp add: lookup_recorded_def attempt_unfold split: prod.splits option.splits)
qed

lemma try_sources_records_lookup:
  "lookup_recorded os st \<Longrightarrow> lookup_recorded os (fst (try_sources cfg lib os srcs st))"
proof (induction srcs arbitrary: st)
  case Nil
  then show ?case by simp
next
  case (Cons a srcs)
  obtain st' bits where a: "attempt cfg lib os a st = (st', bits)"
    by (cases "attempt cfg lib os a st")
  have "lookup_recorded os st'"
    using attempt_records_lookup [OF Cons.prems, of cfg lib a] a by simp
  then show ?case using Cons.IH [of st'] Cons.prems a by simp
qed

lemma acquire_records_lookup:
  "lookup_recorded os (fst (rand_pool_acquire_entropy cfg lib os (entry p s)))"
  unfolding acquire_is_try_sources
  by (rule try_sources_records_lookup) (simp add: lookup_recorded_def entry_def)

text \<open>Among racing threads too, the static keeps the value it has once it is set.\<close>

lemma step_keeps_static:
  assumes "static P \<noteq> PFN_BCryptGenRandom_NOTSET cfg"
  shows "static (step cfg move P) = static P"
proof -
  obtain i hm addr where move: "move = (i, hm, addr)" by (cases move)
  show ?thesis
  proof (cases "i < length (threads P)")
    case False
    then show ?thesis by (simp add: step_def move)
  next
    case True
    then show ?thesis using assms
      by (cases "threads P ! i")
        (simp_all add: step_def move InterlockedCompareExchangePointer_def)
  qed
qed

lemma run_schedule_keeps_static:
  "static P \<noteq> PFN_BCryptGenRandom_NOTSET cfg \<Longrightarrow>
     static (run_schedule cfg sched P) = static P"
proof (induction sched arbitrary: P)
  case Nil
  then show ?case by simp
next
  case (Cons move sched)
  then show ?case using step_keeps_static [of P cfg move] by simp
qed

text \<open>
  C4. Once the static \<^verbatim>\<open>s_pfnBCryptGenRandom\<close> holds a value other than the
  sentinel, be it an address or null, no later call of
  \<^verbatim>\<open>rand_pool_acquire_entropy\<close> changes it or makes a lookup
  (\<^verbatim>\<open>LoadLibraryExA\<close>, \<^verbatim>\<open>GetProcAddress\<close>, \<^verbatim>\<open>FreeLibrary\<close>), and no step
  of any thread changes it. A call that makes a lookup leaves in the static what the
  lookup found: null when the library or the function is missing, and null is not the
  sentinel, so a failed resolution stays.
\<close>

theorem binding_resolved_once:
  "(s \<noteq> PFN_BCryptGenRandom_NOTSET cfg \<longrightarrow>
      fst (successive_calls cfg lib runs s) = s \<and>
      no_lookup (snd (successive_calls cfg lib runs s)))
   \<and> (static P \<noteq> PFN_BCryptGenRandom_NOTSET cfg \<longrightarrow>
        static (run_schedule cfg sched P) = static P)
   \<and> (\<not> no_lookup (calls (fst (rand_pool_acquire_entropy cfg lib os (entry p s0)))) \<longrightarrow>
        s_pfnBCryptGenRandom (fst (rand_pool_acquire_entropy cfg lib os (entry p s0))) =
          (if LoadLibraryExA os \<noteq> NULL then GetProcAddress os (LoadLibraryExA os) else NULL))
   \<and> PFN_BCryptGenRandom_NOTSET cfg \<noteq> NULL"
  using successive_calls_keep_binding [of s cfg lib runs] NULL_is_not_NOTSET [of cfg]
    run_schedule_keeps_static [of P cfg sched] acquire_records_lookup [of os cfg lib p s0]
  by (auto simp: lookup_recorded_def lookup_outcome_def)

theorem binding_resolved_once_witness:
  "NULL \<noteq> PFN_BCryptGenRandom_NOTSET all_flags
   \<and> rand_pool_acquire_entropy all_flags example_lib legacy_os
       (entry spent_pool (PFN_BCryptGenRandom_NOTSET all_flags)) =
     (\<lparr>pool = spent_pool, s_pfnBCryptGenRandom = NULL,
       calls = [(Tsc, Call_from_tsc 0), (Cpu, Call_from_cpu 0),
                (BCrypt, Call_LoadLibraryExA 0),
                (CryptoAPI PROV_RSA_FULL, Call_add_begin 32 None),
                (CryptoAPI PROV_INTEL_SEC, Call_add_begin 32 None)]\<rparr>, 0)
   \<and> \<not> no_lookup (calls (fst (rand_pool_acquire_entropy all_flags example_lib legacy_os
                                 (entry spent_pool (PFN_BCryptGenRandom_NOTSET all_flags)))))
   \<and> successive_calls all_flags example_lib
       [(modern_os, spent_pool), (modern_os, spent_pool)] NULL =
     (NULL, [(Tsc, Call_from_tsc 0), (Cpu, Call_from_cpu 0),
             (CryptoAPI PROV_RSA_FULL, Call_add_begin 32 None),
             (CryptoAPI PROV_INTEL_SEC, Call_add_begin 32 None),
             (Tsc, Call_from_tsc 0), (Cpu, Call_from_cpu 0),
             (CryptoAPI PROV_RSA_FULL, Call_add_begin 32 None),
             (CryptoAPI PROV_INTEL_SEC, Call_add_begin 32 None)])
   \<and> static \<lparr>static = 8192, library_refs = 1, threads = [At_read, Bound 8192]\<rparr> \<noteq>
       PFN_BCryptGenRandom_NOTSET all_flags
   \<and> run_schedule all_flags [(0, 0, 0), (0, 0, 0)]
       \<lparr>static = 8192, library_refs = 1, threads = [At_read, Bound 8192]\<rparr> =
       \<lparr>static = 8192, library_refs = 1, threads = [Bound 8192, Bound 8192]\<rparr>"
  using binding_resolved_once [where s = NULL and cfg = all_flags and lib = example_lib
      and runs = "[(modern_os, spent_pool), (modern_os, spent_pool)]"
      and P = "\<lparr>static = 8192, library_refs = 1, threads = [At_read, Bound 8192]\<rparr>"
      and sched = "[(0, 0, 0), (0, 0, 0)]" and os = legacy_os and p = spent_pool
      and ?s0.0 = "PFN_BCryptGenRandom_NOTSET all_flags"]
  by (simp add: acquire_is_try_sources example_defs step_def)

subsection \<open>Threads racing at the first use\<close>

lemma holders_update:
  "i < length ts \<Longrightarrow>
     holders (ts[i := t]) + (if holds_library (ts ! i) then 1 else 0) =
     holders ts + (if holds_library t then 1 else 0)"
  unfolding holders_def
proof (induction ts arbitrary: i)
  case Nil
  then show ?case by simp
next
  case (Cons a ts)
  then show ?case by (cases i) auto
qed

lemma list_all_update:
  "list_all Q ts \<Longrightarrow> Q t \<Longrightarrow> list_all Q (ts[i := t])"
  by (metis (no_types, lifting) insertE list_all_iff set_update_subset_insert subsetD)

lemma settled_unset:
  "settled cfg (PFN_BCryptGenRandom_NOTSET cfg) t \<Longrightarrow> settled cfg s t"
  by (cases t) simp_all

lemma list_all_settled_unset:
  "list_all (settled cfg (PFN_BCryptGenRandom_NOTSET cfg)) ts \<Longrightarrow> list_all (settled cfg s) ts"
  by (induction ts) (auto intro: settled_unset)

lemma step_keeps_inv:
  assumes inv: "binding_inv cfg P"
    and ans: "snd (snd move) \<noteq> PFN_BCryptGenRandom_NOTSET cfg"
  shows "binding_inv cfg (step cfg move P)"
proof -
  obtain i hm addr where move: "move = (i, hm, addr)" by (cases move)
  show ?thesis
  proof (cases "i < length (threads P)")
    case False
    then show ?thesis using inv by (simp add: step_def move)
  next
    case True
    note upd = holders_update [OF True]
    have here: "settled cfg (static P) (threads P ! i)"
      using inv True by (simp add: binding_inv_def list_all_length)
    have all: "list_all (settled cfg (static P)) (threads P)"
      using inv by (simp add: binding_inv_def)
    have notset: "PFN_BCryptGenRandom_NOTSET cfg \<noteq> NULL" by (rule NULL_is_not_NOTSET)
    show ?thesis
    proof (cases "threads P ! i")
      case At_read
      then show ?thesis using inv True upd [of At_load] upd [of "Bound (static P)"] all
        by (auto simp add: step_def move binding_inv_def InterlockedCompareExchangePointer_def
            intro!: list_all_update split: if_splits)
    next
      case At_load
      then show ?thesis using inv True upd [of "At_lookup hm"] all
        by (auto simp add: step_def move binding_inv_def intro!: list_all_update
            split: if_splits)
    next
      case (At_lookup h)
      then show ?thesis using inv True upd [of "At_exchange h addr"] upd [of "At_exchange h 0"]
          all ans notset
        by (auto simp add: step_def move binding_inv_def intro!: list_all_update
            split: if_splits)
    next
      case (At_exchange h pfn)
      show ?thesis
      proof (cases "static P = PFN_BCryptGenRandom_NOTSET cfg")
        case True
        have "list_all (settled cfg pfn) (threads P)"
          using all True list_all_settled_unset by metis
        then show ?thesis
          using At_exchange inv \<open>i < length (threads P)\<close> upd [of "Bound pfn"] here True
          by (auto simp add: step_def move binding_inv_def InterlockedCompareExchangePointer_def
              intro!: list_all_update split: if_splits)
      next
        case False
        then show ?thesis
          using At_exchange inv True upd [of "At_free h (static P)"] all
          by (auto simp add: step_def move binding_inv_def InterlockedCompareExchangePointer_def
              intro!: list_all_update split: if_splits)
      qed
    next
      case (At_free h pfn2)
      then show ?thesis using inv True upd [of "Bound pfn2"] all here
        by (auto simp add: step_def move binding_inv_def intro!: list_all_update
            split: if_splits)
    next
      case (Bound pfn)
      then show ?thesis using inv True upd [of "Bound pfn"] all here
        by (auto simp add: step_def move binding_inv_def intro!: list_all_update
            split: if_splits)
    qed
  qed
qed

lemma run_schedule_keeps_inv:
  "binding_inv cfg P \<Longrightarrow> proper_answers cfg sched \<Longrightarrow>
     binding_inv cfg (run_schedule cfg sched P)"
proof (induction sched arbitrary: P)
  case Nil
  then show ?case by simp
next
  case (Cons move sched)
  then show ?case using step_keeps_inv [of cfg P move]
    by (simp add: proper_answers_def)
qed

lemma first_use_inv: "binding_inv cfg (first_use cfg n)"
  by (simp add: binding_inv_def first_use_def holders_def list_all_length)

lemma holders_bound: "list_all is_bound ts \<Longrightarrow> holders ts = 0"
  unfolding holders_def
proof (induction ts)
  case Nil
  then show ?case by simp
next
  case (Cons t ts)
  then show ?case by (cases t) simp_all
qed

lemma bound_settled:
  "list_all is_bound ts \<Longrightarrow> list_all (settled cfg s) ts \<Longrightarrow> list_all (\<lambda>t. t = Bound s) ts"
proof (induction ts)
  case Nil
  then show ?case by simp
next
  case (Cons t ts)
  then show ?case by (cases t) simp_all
qed

text \<open>
  A thread on its own takes the steps of \<^verbatim>\<open>bcrypt_binding\<close>: the two readings of
  lines 79 to 95 agree.
\<close>

lemma solo_thread_follows_bcrypt_binding:
  "run_schedule cfg
     [(0, LoadLibraryExA os, GetProcAddress os (LoadLibraryExA os)),
      (0, LoadLibraryExA os, GetProcAddress os (LoadLibraryExA os)),
      (0, LoadLibraryExA os, GetProcAddress os (LoadLibraryExA os)),
      (0, LoadLibraryExA os, GetProcAddress os (LoadLibraryExA os))]
     \<lparr>static = s, library_refs = r, threads = [At_read]\<rparr> =
   \<lparr>static = s_pfnBCryptGenRandom (fst (bcrypt_binding cfg os (entry p s))),
    library_refs =
      (if s = PFN_BCryptGenRandom_NOTSET cfg \<and> LoadLibraryExA os \<noteq> NULL then r + 1 else r),
    threads = [Bound (snd (bcrypt_binding cfg os (entry p s)))]\<rparr>"
  by (simp add: step_def bcrypt_binding_def entry_def
      InterlockedCompareExchangePointer_def Let_def)

text \<open>
  C5. Threads that race to resolve the binding for the first time, in any interleaving
  of their steps: at every moment at most one reference to the library is held beyond
  those of the threads still inside the binding (a thread that loses the exchange frees
  its handle in its next step); and once all threads are past the binding, each of them
  uses the value of the static, and at most one reference to the library remains. The
  operating system is taken never to hand out the sentinel as the address of a function.
\<close>

theorem racing_threads_agree:
  assumes "proper_answers cfg sched"
  shows "library_refs (run_schedule cfg sched (first_use cfg n)) \<le>
           length (filter holds_library (threads (run_schedule cfg sched (first_use cfg n)))) + 1
       \<and> (list_all is_bound (threads (run_schedule cfg sched (first_use cfg n))) \<longrightarrow>
            list_all (\<lambda>t. t = Bound (static (run_schedule cfg sched (first_use cfg n))))
              (threads (run_schedule cfg sched (first_use cfg n)))
          \<and> library_refs (run_schedule cfg sched (first_use cfg n)) \<le> 1)"
proof -
  let ?P = "run_schedule cfg sched (first_use cfg n)"
  have inv: "binding_inv cfg ?P"
    by (rule run_schedule_keeps_inv [OF first_use_inv assms])
  then have "library_refs ?P \<le> holders (threads ?P) + 1"
    and "list_all (settled cfg (static ?P)) (threads ?P)"
    by (simp_all add: binding_inv_def)
  then show ?thesis
    using holders_bound [of "threads ?P"] bound_settled [of "threads ?P" cfg "static ?P"]
    by (auto simp add: holders_def)
qed

theorem racing_threads_agree_witness:
  "proper_answers all_flags race_of_two
   \<and> run_schedule all_flags (butlast (butlast race_of_two)) (first_use all_flags (Suc (Suc 0))) =
       \<lparr>static = 8192, library_refs = 2, threads = [At_exchange 4096 8192, Bound 8192]\<rparr>
   \<and> run_schedule all_flags (butlast race_of_two) (first_use all_flags (Suc (Suc 0))) =
       \<lparr>static = 8192, library_refs = 2, threads = [At_free 4096 8192, Bound 8192]\<rparr>
   \<and> run_schedule all_flags race_of_two (first_use all_flags (Suc (Suc 0))) =
       \<lparr>static = 8192, library_refs = 1, threads = [Bound 8192, Bound 8192]\<rparr>
   \<and> list_all is_bound
       (threads (run_schedule all_flags race_of_two (first_use all_flags (Suc (Suc 0)))))
   \<and> library_refs (run_schedule all_flags race_of_two (first_use all_flags (Suc (Suc 0)))) \<le> 1"
proof -
  have proper: "proper_answers all_flags race_of_two"
    by (simp add: proper_answers_def race_of_two_def PFN_BCryptGenRandom_NOTSET_def
        all_flags_def)
  have runs:
    "run_schedule all_flags (butlast (butlast race_of_two)) (first_use all_flags (Suc (Suc 0))) =
       \<lparr>static = 8192, library_refs = 2, threads = [At_exchange 4096 8192, Bound 8192]\<rparr>"
    "run_schedule all_flags (butlast race_of_two) (first_use all_flags (Suc (Suc 0))) =
       \<lparr>static = 8192, library_refs = 2, threads = [At_free 4096 8192, Bound 8192]\<rparr>"
    "run_schedule all_flags race_of_two (first_use all_flags (Suc (Suc 0))) =
       \<lparr>static = 8192, library_refs = 1, threads = [Bound 8192, Bound 8192]\<rparr>"
    by (simp_all add: race_of_two_def first_use_def step_def
        InterlockedCompareExchangePointer_def PFN_BCryptGenRandom_NOTSET_def all_flags_def)
  show ?thesis
    using racing_threads_agree [OF proper, of "Suc (Suc 0)"] proper runs by simp
qed

subsection \<open>The nonce records\<close>

lemma length_DWORD_bytes [simp]: "length (DWORD_bytes w) = 4"
  by (simp add: DWORD_bytes_def)

lemma length_LARGE_INTEGER_bytes [simp]: "length (LARGE_INTEGER_bytes w) = 8"
  by (simp add: LARGE_INTEGER_bytes_def)

lemma length_FILETIME_bytes [simp]: "length (FILETIME_bytes ft) = 8"
  by (simp add: FILETIME_bytes_def)

lemma memset_whole_object: "memset (stack_object stack n) c n = replicate n c"
  by (simp add: memset_def stack_object_def)

lemma nonce_data_closed:
  "nonce_data os stack =
     DWORD_bytes (GetCurrentProcessId os) @ DWORD_bytes (GetCurrentThreadId os) @
     FILETIME_bytes (GetSystemTimeAsFileTime os)"
  by (simp add: nonce_data_def memset_whole_object store_at_def Let_def)

lemma additional_data_closed:
  "additional_data os stack =
     DWORD_bytes (GetCurrentThreadId os) @ replicate 4 0 @
     LARGE_INTEGER_bytes (QueryPerformanceCounter os)"
  by (simp add: additional_data_def memset_whole_object store_at_def Let_def)

lemma replicate_4: "replicate 4 x = [x, x, x, x]"
  by (simp add: eval_nat_numeral)

text \<open>
  The assignments to the fields leave the four bytes of padding as they were: it is the
  \<^verbatim>\<open>memset\<close> that takes the old contents of the stack out of the record.
\<close>

lemma field_stores_keep_padding:
  "take 4 (drop 4 (store_at 8 (LARGE_INTEGER_bytes t)
                     (store_at 0 (DWORD_bytes tid) (stack_object stack 16)))) =
   map stack [4..<8]"
  by (simp add: store_at_def stack_object_def take_map drop_map take_drop)

text \<open>
  C7. Both nonce functions clear the whole record, padding included, before they set
  its fields: the 16 bytes each passes to \<^verbatim>\<open>rand_pool_add\<close>, and so the whole
  effect and result of the function, are the same for any two contents of the stack;
  they are the identifiers and the time, and zero in the padding.
\<close>

theorem nonce_records_hold_no_stale_bytes:
  "nonce_data os stack = nonce_data os stack'
   \<and> additional_data os stack = additional_data os stack'
   \<and> rand_pool_add_nonce_data lib os stack p = rand_pool_add_nonce_data lib os stack' p
   \<and> rand_pool_add_additional_data lib os stack p =
       rand_pool_add_additional_data lib os stack' p
   \<and> nonce_data os stack =
       DWORD_bytes (GetCurrentProcessId os) @ DWORD_bytes (GetCurrentThreadId os) @
       FILETIME_bytes (GetSystemTimeAsFileTime os)
   \<and> additional_data os stack =
       DWORD_bytes (GetCurrentThreadId os) @ replicate 4 0 @
       LARGE_INTEGER_bytes (QueryPerformanceCounter os)"
  by (simp add: nonce_data_closed additional_data_closed rand_pool_add_nonce_data_def
      rand_pool_add_additional_data_def)

theorem nonce_records_hold_no_stale_bytes_witness:
  "nonce_data some_ident stale_stack = nonce_data some_ident (\<lambda>i. 0)
   \<and> additional_data some_ident stale_stack = additional_data some_ident (\<lambda>i. 0)
   \<and> nonce_data some_ident stale_stack = [210, 4, 0, 0, 46, 22, 0, 0, 1, 0, 0, 0, 2, 0, 0, 0]
   \<and> additional_data some_ident stale_stack =
       [46, 22, 0, 0, 0, 0, 0, 0, 99, 0, 0, 0, 0, 0, 0, 0]"
proof -
  have bytes: "DWORD_bytes 1234 = [210, 4, 0, 0]" "DWORD_bytes 5678 = [46, 22, 0, 0]"
    "DWORD_bytes 1 = [1, 0, 0, 0]" "DWORD_bytes 2 = [2, 0, 0, 0]"
    "LARGE_INTEGER_bytes 99 = [99, 0, 0, 0, 0, 0, 0, 0]"
    by (simp_all add: DWORD_bytes_def LARGE_INTEGER_bytes_def upt_rec drop_bit_eq_div)
  note records = nonce_records_hold_no_stale_bytes [where os = some_ident
      and stack = stale_stack and stack' = "\<lambda>i. 0" and lib = example_lib and p = empty_pool]
  from records have
    "nonce_data some_ident stale_stack =
       DWORD_bytes (GetCurrentProcessId some_ident) @
       DWORD_bytes (GetCurrentThreadId some_ident) @
       FILETIME_bytes (GetSystemTimeAsFileTime some_ident)"
    by blast
  then have "nonce_data some_ident stale_stack =
      [210, 4, 0, 0, 46, 22, 0, 0, 1, 0, 0, 0, 2, 0, 0, 0]"
    by (simp add: some_ident_def FILETIME_bytes_def bytes)
  moreover from records have
    "additional_data some_ident stale_stack =
       DWORD_bytes (GetCurrentThreadId some_ident) @ replicate 4 0 @
       LARGE_INTEGER_bytes (QueryPerformanceCounter some_ident)"
    by blast
  then have "additional_data some_ident stale_stack =
      [46, 22, 0, 0, 0, 0, 0, 0, 99, 0, 0, 0, 0, 0, 0, 0]"
    by (simp add: some_ident_def bytes replicate_4)
  ultimately show ?thesis using records by blast
qed

lemma add_bytes_zero_claim:
  "entropy_bits_credited (add_bytes p n 0) = entropy_bits_credited p"
  by (simp add: add_bytes_def reserve_def commit_def Let_def)

text \<open>
  C8. Both nonce functions pass their record to \<^verbatim>\<open>rand_pool_add\<close> with the
  entropy argument 0, whatever the library; and on the pool as the specification
  describes it, bytes added with a claim of 0 leave the credited entropy as it was, so
  the nonce functions do not change what the pool reports as available.
\<close>

theorem nonces_claim_no_entropy:
  "rand_pool_add_nonce_data lib os stack p = rand_pool_add lib p (nonce_data os stack) 16 0
   \<and> rand_pool_add_additional_data lib os stack p =
       rand_pool_add lib p (additional_data os stack) 16 0
   \<and> available_entropy (fst (rand_pool_add_nonce_data (with_spec_pool lib') os stack q)) =
       available_entropy q
   \<and> available_entropy (fst (rand_pool_add_additional_data (with_spec_pool lib') os stack q)) =
       available_entropy q"
  by (simp add: rand_pool_add_nonce_data_def rand_pool_add_additional_data_def
      available_entropy_def add_bytes_zero_claim with_spec_pool_def)

theorem nonces_claim_no_entropy_witness:
  "rand_pool_add_nonce_data example_lib some_ident stale_stack empty_pool =
     (\<lparr>bytes_written = 16, entropy_bits_credited = 0, min_bytes_needed = 32,
       max_entropy_bits = 256, capacity = 48, reserved = 16\<rparr>, 1)
   \<and> available_entropy
       (fst (rand_pool_add_additional_data (with_spec_pool example_lib) some_ident stale_stack
               empty_pool)) = 0"
  using nonces_claim_no_entropy [where lib = example_lib and os = some_ident
      and stack = stale_stack and p = empty_pool and lib' = example_lib and q = empty_pool]
  by (simp add: example_lib_def with_spec_pool_def empty_pool_def add_bytes_def reserve_def
      commit_def available_entropy_def Let_def rand_pool_add_nonce_data_def)

text \<open>
  C9, as the claim states it, fails: with a library whose \<^verbatim>\<open>rand_pool_add\<close>
  reports failure on a pool without room, both nonce functions return 0.
\<close>

theorem nonce_fails_on_full_pool:
  "snd (rand_pool_add_nonce_data example_lib some_ident stale_stack full_pool) = 0
   \<and> snd (rand_pool_add_additional_data example_lib some_ident stale_stack full_pool) = 0"
  by (simp add: rand_pool_add_nonce_data_def rand_pool_add_additional_data_def example_lib_def
      with_spec_pool_def full_pool_def reserve_def Let_def)

text \<open>
  C9, amended. The nonce functions have no failure path of their own: each returns
  exactly what \<^verbatim>\<open>rand_pool_add\<close> returns for its 16-byte record and the entropy
  argument 0, so each succeeds exactly when that call does.
\<close>

theorem nonces_return_what_add_returns:
  "snd (rand_pool_add_nonce_data lib os stack p) =
     snd (rand_pool_add lib p
            (DWORD_bytes (GetCurrentProcessId os) @ DWORD_bytes (GetCurrentThreadId os) @
             FILETIME_bytes (GetSystemTimeAsFileTime os)) 16 0)
   \<and> snd (rand_pool_add_additional_data lib os stack p) =
     snd (rand_pool_add lib p
            (DWORD_bytes (GetCurrentThreadId os) @ replicate 4 0 @
             LARGE_INTEGER_bytes (QueryPerformanceCounter os)) 16 0)"
  by (simp add: rand_pool_add_nonce_data_def rand_pool_add_additional_data_def
      nonce_data_closed additional_data_closed)

theorem nonces_return_what_add_returns_witness:
  "snd (rand_pool_add_nonce_data example_lib some_ident stale_stack empty_pool) = 1
   \<and> snd (rand_pool_add_additional_data example_lib some_ident stale_stack spent_pool) = 0"
  using nonces_return_what_add_returns [of example_lib some_ident stale_stack empty_pool]
    nonces_return_what_add_returns [of example_lib some_ident stale_stack spent_pool]
  by (simp add: example_lib_def with_spec_pool_def empty_pool_def spent_pool_def reserve_def
      Let_def)

subsection \<open>The pool never credits more than it holds\<close>

lemma reserve_fields [simp]:
  "bytes_written (fst (reserve p n)) = bytes_written p"
  "entropy_bits_credited (fst (reserve p n)) = entropy_bits_credited p"
  "max_entropy_bits (fst (reserve p n)) = max_entropy_bits p"
  by (simp_all add: reserve_def Let_def)

lemma commit_max [simp]: "max_entropy_bits (commit p b e) = max_entropy_bits p"
  by (simp add: commit_def)

lemma reserve_within_bounds: "within_bounds p \<Longrightarrow> within_bounds (fst (reserve p n))"
  by (simp add: within_bounds_def)

lemma reserve_within_bounds':
  "reserve p n = (p', b) \<Longrightarrow> within_bounds p \<Longrightarrow> within_bounds p'"
  using reserve_within_bounds [of p n] by simp

lemma commit_within_bounds: "within_bounds p \<Longrightarrow> within_bounds (commit p b e)"
  by (auto simp add: within_bounds_def commit_def)

lemma apply_ops_within_bounds:
  "within_bounds p \<Longrightarrow>
     within_bounds (apply_ops p ops) \<and>
     max_entropy_bits (apply_ops p ops) = max_entropy_bits p"
proof (induction ops arbitrary: p)
  case Nil
  then show ?case by simp
next
  case (Cons op ops)
  show ?case
  proof (cases op)
    case (Reserve n)
    then show ?thesis
      using Cons.IH [of "fst (reserve p n)"] reserve_within_bounds [OF Cons.prems] by simp
  next
    case (Commit b e)
    then show ?thesis
      using Cons.IH [of "commit p b e"] commit_within_bounds [OF Cons.prems] by simp
  qed
qed

lemma with_spec_pool_simps [simp]:
  "rand_pool_add_begin (with_spec_pool lib) = reserve"
  "rand_pool_add_end (with_spec_pool lib) = commit"
  "rand_pool_entropy_available (with_spec_pool lib) = available_entropy"
  "rand_acquire_entropy_from_tsc (with_spec_pool lib) = rand_acquire_entropy_from_tsc lib"
  "rand_acquire_entropy_from_cpu (with_spec_pool lib) = rand_acquire_entropy_from_cpu lib"
  "rand_pool_bytes_needed (with_spec_pool lib) = rand_pool_bytes_needed lib"
  by (simp_all add: with_spec_pool_def)

lemma attempt_within_bounds:
  assumes "hardware_keeps_bounds lib" and "within_bounds (pool st)"
  shows "within_bounds (pool (fst (attempt cfg (with_spec_pool lib) os src st)))"
proof (cases src)
  case Tsc
  then show ?thesis using assms
    by (auto simp add: hardware_keeps_bounds_def from_tsc_def split: prod.splits)
next
  case Cpu
  then show ?thesis using assms
    by (auto simp add: hardware_keeps_bounds_def from_cpu_def split: prod.splits)
next
  case BCrypt
  then show ?thesis using assms(2)
    by (auto simp add: bcrypt_binding_def bcrypt_fill_def
        InterlockedCompareExchangePointer_def Let_def
        split: prod.splits option.splits
        intro: commit_within_bounds reserve_within_bounds')
next
  case (CryptoAPI prov)
  then show ?thesis using assms(2)
    by (auto simp add: cryptoapi_fill_def Let_def
        split: prod.splits option.splits
        intro: commit_within_bounds reserve_within_bounds')
qed

lemma try_sources_within_bounds:
  assumes "hardware_keeps_bounds lib"
  shows "within_bounds (pool st) \<Longrightarrow>
         within_bounds (pool (fst (try_sources cfg (with_spec_pool lib) os srcs st)))"
proof (induction srcs arbitrary: st)
  case Nil
  then show ?case by simp
next
  case (Cons a srcs)
  obtain st' bits where a: "attempt cfg (with_spec_pool lib) os a st = (st', bits)"
    by (cases "attempt cfg (with_spec_pool lib) os a st")
  have "within_bounds (pool st')"
    using attempt_within_bounds [OF assms Cons.prems, of cfg os a] a by simp
  then show ?case using Cons.IH [of st'] a by simp
qed

lemma acquire_within_bounds:
  assumes "hardware_keeps_bounds lib" and "within_bounds p"
  shows "within_bounds
           (pool (fst (rand_pool_acquire_entropy cfg (with_spec_pool lib) os (entry p s))))"
  unfolding acquire_is_try_sources
  by (rule try_sources_within_bounds [OF assms(1)]) (simp add: entry_def assms(2))

lemma example_hardware_keeps_bounds: "hardware_keeps_bounds example_lib"
  by (simp add: hardware_keeps_bounds_def example_lib_def with_spec_pool_def)

text \<open>
  C1. On the pool as the specification describes it, starting within the bounds (as an
  empty pool is): after any sequence of reservations and commits, the entropy reported
  as available is at most 8 times the bytes written and at most the configured
  \<open>max_entropy_bits\<close>, which no operation changes, whatever a commit claims; and the
  same holds of the pool after a call of \<^verbatim>\<open>rand_pool_acquire_entropy\<close> that works
  on such a pool, when the hardware sources keep the bounds.
\<close>

theorem pool_never_over_credits:
  assumes "within_bounds p"
  shows "available_entropy (apply_ops p ops) \<le> 8 * bytes_written (apply_ops p ops)
       \<and> available_entropy (apply_ops p ops) \<le> max_entropy_bits (apply_ops p ops)
       \<and> max_entropy_bits (apply_ops p ops) = max_entropy_bits p
       \<and> (hardware_keeps_bounds lib \<longrightarrow>
            available_entropy
              (pool (fst (rand_pool_acquire_entropy cfg (with_spec_pool lib) os (entry p s))))
            \<le> 8 * bytes_written
              (pool (fst (rand_pool_acquire_entropy cfg (with_spec_pool lib) os (entry p s))))
          \<and> available_entropy
              (pool (fst (rand_pool_acquire_entropy cfg (with_spec_pool lib) os (entry p s))))
            \<le> max_entropy_bits
              (pool (fst (rand_pool_acquire_entropy cfg (with_spec_pool lib) os (entry p s)))))"
  using apply_ops_within_bounds [of p ops] assms
    acquire_within_bounds [of lib p cfg os s]
  by (simp add: within_bounds_def available_entropy_def)

theorem pool_never_over_credits_witness:
  "within_bounds empty_pool
   \<and> hardware_keeps_bounds example_lib
   \<and> apply_ops empty_pool [Reserve 40, Commit 40 1000, Reserve 8, Commit 0 64] =
       \<lparr>bytes_written = 40, entropy_bits_credited = 256, min_bytes_needed = 32,
        max_entropy_bits = 256, capacity = 48, reserved = 48\<rparr>
   \<and> available_entropy (apply_ops empty_pool [Reserve 40, Commit 40 1000, Reserve 8, Commit 0 64])
       \<le> 8 * bytes_written
             (apply_ops empty_pool [Reserve 40, Commit 40 1000, Reserve 8, Commit 0 64])
   \<and> available_entropy (apply_ops empty_pool [Reserve 40, Commit 40 1000, Reserve 8, Commit 0 64])
       \<le> max_entropy_bits empty_pool
   \<and> pool (fst (rand_pool_acquire_entropy all_flags (with_spec_pool example_lib) modern_os
                  (entry empty_pool NULL))) =
       \<lparr>bytes_written = 32, entropy_bits_credited = 256, min_bytes_needed = 32,
        max_entropy_bits = 256, capacity = 48, reserved = 32\<rparr>"
proof -
  have start: "within_bounds empty_pool"
    by (simp add: within_bounds_def empty_pool_def)
  show ?thesis
    using pool_never_over_credits [OF start, of "[Reserve 40, Commit 40 1000, Reserve 8, Commit 0 64]"
        example_lib all_flags modern_os NULL] start example_hardware_keeps_bounds
    by (simp add: acquire_is_try_sources example_defs)
qed

end
